theory Spec2Isabelle
  imports Complex_Main
begin

section \<open>Python values and the exceptions the program can meet\<close>

text \<open>
  The value \<open>response.json()\<close> returns: \<open>None\<close>, a bool, an int, a float, a string, a
  list or a dict with string keys. A dict is kept as an association list, read with
  \<open>map_of\<close>. A float is kept as the rational it denotes: the program only hands floats
  on and tests them against zero.
\<close>

datatype pyval =
    PNone
  | PBool bool
  | PInt int
  | PFloat rat
  | PStr string
  | PList "pyval list"
  | PDict "(string \<times> pyval) list"

datatype error =
    AttributeError
  | TypeError
  | KeyError
  | IndexError
  | ZeroDivisionError
  | OverflowError
  | ValueError
  | InterfaceError
  | IntegrityError
  | OperationalError

text \<open>Sequencing of steps that can raise: the first exception ends the computation.\<close>

definition ebind :: "error + 'a \<Rightarrow> ('a \<Rightarrow> error + 'b) \<Rightarrow> error + 'b" where
  "ebind m f = (case m of Inl e \<Rightarrow> Inl e | Inr x \<Rightarrow> f x)"

text \<open>\<open>not x\<close> is the negation of this.\<close>

fun py_truthy :: "pyval \<Rightarrow> bool" where
  "py_truthy PNone = False"
| "py_truthy (PBool b) = b"
| "py_truthy (PInt i) = (i \<noteq> 0)"
| "py_truthy (PFloat r) = (r \<noteq> 0)"
| "py_truthy (PStr s) = (s \<noteq> [])"
| "py_truthy (PList xs) = (xs \<noteq> [])"
| "py_truthy (PDict kvs) = (kvs \<noteq> [])"

text \<open>\<open>x.get(k)\<close>: only a dict has the method.\<close>

fun py_get :: "pyval \<Rightarrow> string \<Rightarrow> error + pyval" where
  "py_get (PDict kvs) k = (case map_of kvs k of None \<Rightarrow> Inr PNone | Some v \<Rightarrow> Inr v)"
| "py_get _ k = Inl AttributeError"

text \<open>\<open>x[k]\<close> with a string \<open>k\<close>.\<close>

fun py_getitem :: "pyval \<Rightarrow> string \<Rightarrow> error + pyval" where
  "py_getitem (PDict kvs) k = (case map_of kvs k of None \<Rightarrow> Inl KeyError | Some v \<Rightarrow> Inr v)"
| "py_getitem _ k = Inl TypeError"

text \<open>\<open>x[0]\<close>. The keys of a parsed JSON object are strings, so \<open>0\<close> is never one.\<close>

fun py_first :: "pyval \<Rightarrow> error + pyval" where
  "py_first (PList []) = Inl IndexError"
| "py_first (PList (x # xs)) = Inr x"
| "py_first (PStr []) = Inl IndexError"
| "py_first (PStr (c # cs)) = Inr (PStr [c])"
| "py_first (PDict kvs) = Inl KeyError"
| "py_first _ = Inl TypeError"

text \<open>The elements \<open>for sheet in x\<close> runs over.\<close>

fun py_iter :: "pyval \<Rightarrow> error + pyval list" where
  "py_iter (PList xs) = Inr xs"
| "py_iter (PStr s) = Inr (map (\<lambda>c. PStr [c]) s)"
| "py_iter (PDict kvs) = Inr (map (\<lambda>kv. PStr (fst kv)) kvs)"
| "py_iter _ = Inl TypeError"

section \<open>RecordFetcher: \<open>get_parcel_info\<close>\<close>

text \<open>The dict \<open>data\<close> built by \<open>get_parcel_info\<close>: always these eight keys.\<close>

record parcel =
  parcel_id :: pyval
  municipality_name :: pyval
  parcel_number :: pyval
  address :: pyval
  area :: pyval
  owner_name :: pyval
  owner_ownership :: pyval
  owner_address :: pyval

text \<open>
  What one \<open>session.get\<close> brings back: the request itself raises (timeout, connection
  reset), or a response arrives with a status and a body; \<open>response.json()\<close> raises on
  a body that is not JSON, which is \<open>payload = None\<close>.
\<close>

datatype response =
    RequestRaises
  | Response (status: int) (payload: "pyval option")

text \<open>
  The counters of \<open>FastCadastralScraper\<close> that \<open>get_parcel_info\<close> updates; the rest of
  the object extends this record below.
\<close>

record counters =
  successful_requests :: nat
  failed_requests :: nat

text \<open>The \<open>for sheet in content['possessionSheets']\<close> loop, with its \<open>break\<close>.\<close>

fun scan_sheets :: "pyval list \<Rightarrow> parcel \<Rightarrow> error + parcel" where
  "scan_sheets [] data = Inr data"
| "scan_sheets (sheet # rest) data =
     ebind (py_get sheet ''possessors'') (\<lambda>ps.
       if py_truthy ps then
         ebind (py_getitem sheet ''possessors'') (\<lambda>ps'.
         ebind (py_first ps') (\<lambda>possessor.
         ebind (py_get possessor ''name'') (\<lambda>n.
         ebind (py_get possessor ''ownership'') (\<lambda>ow.
         ebind (py_get possessor ''address'') (\<lambda>ad.
           Inr (data\<lparr>owner_name := n, owner_ownership := ow, owner_address := ad\<rparr>))))))
       else scan_sheets rest data)"

text \<open>Lines 84 to 105: the body of the \<open>try\<close> once \<open>content\<close> is known to be truthy.\<close>

definition build_data :: "pyval \<Rightarrow> error + parcel" where
  "build_data content =
     ebind (py_get content ''parcelId'') (\<lambda>pid.
     ebind (py_get content ''cadMunicipalityName'') (\<lambda>mun.
     ebind (py_get content ''parcelNumber'') (\<lambda>num.
     ebind (py_get content ''address'') (\<lambda>adr.
     ebind (py_get content ''area'') (\<lambda>ar.
       let data = \<lparr>parcel_id = pid, municipality_name = mun, parcel_number = num,
                   address = adr, area = ar,
                   owner_name = PNone, owner_ownership = PNone, owner_address = PNone\<rparr>
       in ebind (py_get content ''possessionSheets'') (\<lambda>sheets.
            if py_truthy sheets then
              ebind (py_getitem content ''possessionSheets'') (\<lambda>sheets'.
              ebind (py_iter sheets') (\<lambda>ss. scan_sheets ss data))
            else Inr data))))))"

text \<open>
  \<open>get_parcel_info\<close>. \<open>session\<close> is what \<open>session.get\<close> brings back for the identifier
  put into the query, the argument \<open>parcel_id\<close> of the source (here \<open>requested_id\<close>:
  the field of the record has the name). \<open>except Exception\<close> turns every exception of
  the body into \<open>failed_requests += 1\<close> and \<open>None\<close>.
\<close>

definition get_parcel_info ::
  "'a counters_scheme \<Rightarrow> (int \<Rightarrow> response) \<Rightarrow> int \<Rightarrow> 'a counters_scheme \<times> parcel option" where
  "get_parcel_info c session requested_id =
     (case session requested_id of
        RequestRaises \<Rightarrow> (c\<lparr>failed_requests := failed_requests c + 1\<rparr>, None)
      | Response st body \<Rightarrow>
          if st \<noteq> 200 then (c\<lparr>failed_requests := failed_requests c + 1\<rparr>, None)
          else (case body of
                  None \<Rightarrow> (c\<lparr>failed_requests := failed_requests c + 1\<rparr>, None)
                | Some content \<Rightarrow>
                    let c1 = c\<lparr>successful_requests := successful_requests c + 1\<rparr> in
                    if \<not> py_truthy content then (c1, None)
                    else (case build_data content of
                            Inl e \<Rightarrow> (c1\<lparr>failed_requests := failed_requests c1 + 1\<rparr>, None)
                          | Inr data \<Rightarrow> (c1, Some data))))"

section \<open>RecordStore: \<open>CadastralDatabase\<close>\<close>

text \<open>
  The values SQLite stores, and a row of \<open>parcels\<close>. \<open>parcel_id INTEGER PRIMARY KEY\<close> is
  the rowid, an integer. The other columns hold the value the statement bound: the
  program never reads them back, so the storage class their column affinity gives them
  is not observed.
\<close>

datatype sqlval = SNull | SInt int | SReal rat | SText string

record row =
  col_parcel_id :: int
  col_municipality_name :: sqlval
  col_parcel_number :: sqlval
  col_address :: sqlval
  col_area :: sqlval
  col_owner_name :: sqlval
  col_owner_ownership :: sqlval
  col_owner_address :: sqlval
  col_created_at :: nat

text \<open>
  What the engine decides during one \<open>executemany\<close> and the program does not:
  the integer a text key is read as under INTEGER affinity (\<open>None\<close>: datatype
  mismatch), the rowid picked at random once the largest one is taken,
  \<open>CURRENT_TIMESTAMP\<close>, and the index of the statement at which the engine fails
  (disk full, database locked), if any.
\<close>

record sqlite =
  text_rowid :: "string \<Rightarrow> int option"
  random_rowid :: "int list \<Rightarrow> int option"
  current_timestamp :: nat
  io_fault :: "nat option"

definition int64 :: "int \<Rightarrow> bool" where
  "int64 i = (- (2 ^ 63) \<le> i \<and> i < 2 ^ 63)"

text \<open>
  Binding one named parameter: the \<open>sqlite3\<close> module adapts \<open>None\<close>, int (bool is an
  int), float and str, refuses an int outside 64 bits and any other type.
\<close>

fun bind_param :: "pyval \<Rightarrow> error + sqlval" where
  "bind_param PNone = Inr SNull"
| "bind_param (PBool b) = Inr (SInt (if b then 1 else 0))"
| "bind_param (PInt i) = (if int64 i then Inr (SInt i) else Inl OverflowError)"
| "bind_param (PFloat r) = Inr (SReal r)"
| "bind_param (PStr s) = Inr (SText s)"
| "bind_param (PList xs) = Inl InterfaceError"
| "bind_param (PDict kvs) = Inl InterfaceError"

text \<open>
  The rowid of a row inserted with a NULL key: one more than the largest in use. A
  float key is taken when it is a whole number strictly between the least and the
  greatest 64-bit integer; a text key as the engine reads it.
\<close>

definition new_rowid :: "sqlite \<Rightarrow> row list \<Rightarrow> error + int" where
  "new_rowid eng rows =
     (if rows = [] then Inr 1
      else let m = Max (set (map col_parcel_id rows)) in
        if m < 2 ^ 63 - 1 then Inr (m + 1)
        else (case random_rowid eng (map col_parcel_id rows) of
                None \<Rightarrow> Inl OperationalError
              | Some k \<Rightarrow>
                  if k \<in> set (map col_parcel_id rows) \<or> \<not> (0 < k \<and> int64 k)
                  then Inl OperationalError else Inr k))"

fun rowid_of :: "sqlite \<Rightarrow> row list \<Rightarrow> sqlval \<Rightarrow> error + int" where
  "rowid_of eng rows SNull = new_rowid eng rows"
| "rowid_of eng rows (SInt i) = Inr i"
| "rowid_of eng rows (SReal r) =
     (if of_int \<lfloor>r\<rfloor> = r \<and> - (2 ^ 63) < \<lfloor>r\<rfloor> \<and> \<lfloor>r\<rfloor> < 2 ^ 63 - 1
      then Inr \<lfloor>r\<rfloor> else Inl IntegrityError)"
| "rowid_of eng rows (SText s) =
     (case text_rowid eng s of None \<Rightarrow> Inl IntegrityError | Some i \<Rightarrow> Inr i)"

text \<open>
  One \<open>INSERT OR REPLACE INTO parcels (...) VALUES (:parcel_id, ...)\<close>: the row that
  holds the key, if any, is deleted and the new row is inserted.
\<close>

definition insert_or_replace :: "sqlite \<Rightarrow> row list \<Rightarrow> parcel \<Rightarrow> error + row list" where
  "insert_or_replace eng rows p =
     ebind (bind_param (parcel_id p)) (\<lambda>k.
     ebind (bind_param (municipality_name p)) (\<lambda>mun.
     ebind (bind_param (parcel_number p)) (\<lambda>num.
     ebind (bind_param (address p)) (\<lambda>adr.
     ebind (bind_param (area p)) (\<lambda>ar.
     ebind (bind_param (owner_name p)) (\<lambda>own.
     ebind (bind_param (owner_ownership p)) (\<lambda>oos.
     ebind (bind_param (owner_address p)) (\<lambda>oad.
     ebind (rowid_of eng rows k) (\<lambda>rid.
       Inr (filter (\<lambda>r. col_parcel_id r \<noteq> rid) rows @
            [\<lparr>col_parcel_id = rid, col_municipality_name = mun, col_parcel_number = num,
              col_address = adr, col_area = ar, col_owner_name = own,
              col_owner_ownership = oos, col_owner_address = oad,
              col_created_at = current_timestamp eng\<rparr>]))))))))))"

text \<open>
  \<open>executemany\<close>: the statement runs once per record, in order, inside the transaction
  the first one opens. It stops at the first statement that raises; the rows written
  before it stay in the open transaction. \<open>n\<close> counts the statements run so far.
\<close>

fun executemany :: "sqlite \<Rightarrow> nat \<Rightarrow> row list \<Rightarrow> parcel list \<Rightarrow> row list \<times> error option" where
  "executemany eng n rows [] = (rows, None)"
| "executemany eng n rows (p # ps) =
     (if io_fault eng = Some n then (rows, Some OperationalError)
      else (case insert_or_replace eng rows p of
              Inl e \<Rightarrow> (rows, Some e)
            | Inr rows' \<Rightarrow> executemany eng (Suc n) rows' ps))"

text \<open>
  The connection: the committed table, and the table as the connection sees it (with
  the changes of its open transaction).
\<close>

record conn =
  durable :: "row list"
  current :: "row list"

definition commit :: "conn \<Rightarrow> conn" where
  "commit c = c\<lparr>durable := current c\<rparr>"

definition rollback :: "conn \<Rightarrow> conn" where
  "rollback c = c\<lparr>current := durable c\<rparr>"

text \<open>\<open>sqlite3.connect\<close> on a file that holds \<open>rows\<close>, then \<open>create_tables\<close>.\<close>

definition connect :: "row list \<Rightarrow> conn" where
  "connect rows = \<lparr>durable = rows, current = rows\<rparr>"

text \<open>
  \<open>insert_many\<close>: \<open>with self.conn\<close> commits when its body returns and rolls back when
  it raises; the exception goes on to the caller.
\<close>

definition insert_many :: "sqlite \<Rightarrow> conn \<Rightarrow> parcel list \<Rightarrow> conn \<times> error option" where
  "insert_many eng c records =
     (case executemany eng 0 (current c) records of
        (rows, None) \<Rightarrow> (commit (c\<lparr>current := rows\<rparr>), None)
      | (rows, Some e) \<Rightarrow> (rollback (c\<lparr>current := rows\<rparr>), Some e))"

text \<open>\<open>SELECT MAX(parcel_id) FROM parcels\<close>: NULL on an empty table.\<close>

definition get_last_id :: "conn \<Rightarrow> int option" where
  "get_last_id c =
     (if current c = [] then None else Some (Max (set (map col_parcel_id (current c)))))"

definition get_stats :: "conn \<Rightarrow> nat \<times> int option \<times> int option" where
  "get_stats c =
     (length (current c),
      if current c = [] then None else Some (Min (set (map col_parcel_id (current c)))),
      if current c = [] then None else Some (Max (set (map col_parcel_id (current c)))))"

section \<open>BatchScheduler: \<open>process_batch\<close> and \<open>scrape_range\<close>\<close>

text \<open>The object \<open>FastCadastralScraper\<close>; \<open>__init__\<close> sets \<open>batch_size\<close> to 10000.\<close>

record scraper = counters +
  batch_size :: nat
  db :: conn

definition FastCadastralScraper :: "row list \<Rightarrow> scraper" where
  "FastCadastralScraper rows =
     \<lparr>successful_requests = 0, failed_requests = 0, batch_size = 10000, db = connect rows\<rparr>"

text \<open>
  Python's float arithmetic, as far as \<open>scrape_range\<close> uses it. Nothing is assumed
  of it: a float is a value of a type \<open>'f\<close>, and the operations are whatever the
  interpreter does. \<open>float_sub\<close> is \<open>x - y\<close> (line 143), \<open>float_sum\<close> is \<open>sum\<close> of a list
  of floats and \<open>float_div_int\<close> the division of a float by an int (line 132),
  \<open>int_truediv\<close> the quotient \<open>a / b\<close> of two ints with \<open>b\<close> not zero (line 129; the
  quotient is taken to be in the range of floats), \<open>float_mul\<close> is \<open>x * y\<close> (line 133),
  and \<open>float_to_int\<close> is \<open>int(x)\<close>, which raises on an infinity and on a NaN (line 134).
\<close>

record 'f arith =
  float_sub :: "'f \<Rightarrow> 'f \<Rightarrow> 'f"
  float_sum :: "'f list \<Rightarrow> 'f"
  float_div_int :: "'f \<Rightarrow> int \<Rightarrow> 'f"
  int_truediv :: "int \<Rightarrow> int \<Rightarrow> 'f"
  float_mul :: "'f \<Rightarrow> 'f \<Rightarrow> 'f"
  float_to_int :: "'f \<Rightarrow> error + int"

text \<open>
  What the program does to the outside, in the order it does it: a request for an
  identifier, \<open>asyncio.sleep\<close>, a progress line with its \<open>eta_seconds\<close>.
\<close>

datatype 'f event = Fetch int | Sleep nat | Progress 'f

text \<open>
  The scraper during \<open>scrape_range\<close>: its locals \<open>current_id\<close> and \<open>batch_durations\<close>,
  the number of passes of the loop body begun so far, and the events so far.
\<close>

record 'f run = scraper +
  current_id :: int
  batch_durations :: "'f list"
  attempt :: nat
  trace :: "'f event list"

text \<open>
  The outside world during the \<open>n\<close>-th pass of the loop body: the response to a request
  for an identifier, the engine's choices during \<open>insert_many\<close>, the two readings of
  \<open>time.time()\<close> (line 127 and line 143), and the exception \<open>get_stats\<close> raises in that
  pass, if any (line 135); and the float arithmetic.
\<close>

record 'f env =
  session_get :: "nat \<Rightarrow> int \<Rightarrow> response"
  sqlite_at :: "nat \<Rightarrow> sqlite"
  time_time :: "nat \<Rightarrow> 'f \<times> 'f"
  stats_fault :: "nat \<Rightarrow> error option"
  arith :: "'f arith"

text \<open>
  \<open>asyncio.gather\<close> over the tasks: every task runs \<open>get_parcel_info\<close> to its end and the
  results come back in the order of the tasks. The tasks share only the two counters,
  which each one increments, so the requests are taken in the order of submission.
\<close>

fun gather ::
  "(int \<Rightarrow> response) \<Rightarrow> int list \<Rightarrow> 'f run \<Rightarrow> 'f run \<times> parcel option list" where
  "gather session [] s = (s, [])"
| "gather session (i # ids) s =
     (let (s1, r) = get_parcel_info (s\<lparr>trace := trace s @ [Fetch i]\<rparr>) session i;
          (s2, rs) = gather session ids s1
      in (s2, r # rs))"

definition process_batch ::
  "(int \<Rightarrow> response) \<Rightarrow> 'f run \<Rightarrow> int \<Rightarrow> 'f run \<times> parcel list" where
  "process_batch session s start_id =
     (let (s', results) = gather session (map (\<lambda>i. start_id + int i) [0..<batch_size s]) s
      in (s', List.map_filter (\<lambda>r. r) results))"

text \<open>Lines 144 to 146: \<open>append\<close>, then \<open>pop(0)\<close> when more than 50 are held.\<close>

definition push_duration :: "'f list \<Rightarrow> 'f \<Rightarrow> 'f list" where
  "push_duration w d = (let w' = w @ [d] in if length w' > 50 then tl w' else w')"

text \<open>
  Lines 138 to 157: the \<open>try\<close>, its \<open>except\<close> with the sleep and \<open>continue\<close>, and the
  advance of \<open>current_id\<close>. \<open>t0\<close> is \<open>batch_start_time\<close>, \<open>t1\<close> the reading of line 143.
  The quotient of line 149 is at most one, so only its division by zero can raise.
\<close>

definition try_batch ::
  "'f arith \<Rightarrow> sqlite \<Rightarrow> (int \<Rightarrow> response) \<Rightarrow> 'f \<Rightarrow> 'f \<Rightarrow> 'f run \<Rightarrow> 'f run" where
  "try_batch ar eng session t0 t1 s =
     (let (s1, batch_results) = process_batch session s (current_id s);
          (d, err) = (if batch_results \<noteq> [] then insert_many eng (db s1) batch_results
                      else (db s1, None))
      in case err of
           Some e \<Rightarrow> s1\<lparr>db := d, trace := trace s1 @ [Sleep 60]\<rparr>
         | None \<Rightarrow>
             let s2 = s1\<lparr>db := d,
                        batch_durations :=
                          push_duration (batch_durations s1) (float_sub ar t1 t0)\<rparr>
             in if batch_size s2 = 0 then s2\<lparr>trace := trace s2 @ [Sleep 60]\<rparr>
                else if successful_requests s2 mod batch_size s2 = 0
                        \<and> successful_requests s2 + failed_requests s2 = 0
                then s2\<lparr>trace := trace s2 @ [Sleep 60]\<rparr>
                else s2\<lparr>current_id := current_id s2 + int (batch_size s2)\<rparr>)"

text \<open>
  \<open>timedelta(seconds=n)\<close> for an int \<open>n\<close>: the days, \<open>n // 86400\<close>, must have a
  magnitude of at most 999999999.
\<close>

definition timedelta :: "int \<Rightarrow> error + int" where
  "timedelta seconds =
     (if - 999999999 \<le> seconds div 86400 \<and> seconds div 86400 \<le> 999999999
      then Inr seconds else Inl OverflowError)"

text \<open>
  Lines 128 to 136, the top of a pass, outside the \<open>try\<close>: an exception here leaves
  \<open>scrape_range\<close>. Line 129 divides by \<open>self.batch_size\<close>. With a window that is not
  empty, lines 132 to 136 compute the ETA in floats, turn it into a \<open>timedelta\<close>, call
  \<open>get_stats\<close>, and print the progress line, whose percentage divides by
  \<open>end_id - start_id\<close>. Of the line printed only the ETA is kept, as \<open>eta_seconds\<close>.
\<close>

definition report_progress ::
  "'f env \<Rightarrow> int \<Rightarrow> int \<Rightarrow> 'f run \<Rightarrow> error + 'f event list" where
  "report_progress ev start_id end_id s =
     (let remaining_ids = end_id - current_id s in
      if batch_size s = 0 then Inl ZeroDivisionError
      else
        let remaining_batches = int_truediv (arith ev) remaining_ids (int (batch_size s)) in
        if batch_durations s \<noteq> [] then
          (let avg_duration =
                 float_div_int (arith ev) (float_sum (arith ev) (batch_durations s))
                   (int (length (batch_durations s)));
               eta_seconds = float_mul (arith ev) avg_duration remaining_batches
           in ebind (float_to_int (arith ev) eta_seconds) (\<lambda>seconds.
              ebind (timedelta seconds) (\<lambda>eta.
              ebind (case stats_fault ev (attempt s) of
                       Some e \<Rightarrow> Inl e
                     | None \<Rightarrow> Inr (get_stats (db s))) (\<lambda>stats.
                if end_id - start_id = 0 then Inl ZeroDivisionError
                else Inr [Progress eta_seconds]))))
        else Inr [])"

text \<open>Lines 127 to 157: one pass of the loop body.\<close>

definition loop_body :: "'f env \<Rightarrow> int \<Rightarrow> int \<Rightarrow> 'f run \<Rightarrow> error + 'f run" where
  "loop_body ev start_id end_id s =
     (let n = attempt s;
          (t0, t1) = time_time ev n
      in case report_progress ev start_id end_id s of
           Inl e \<Rightarrow> Inl e
         | Inr line \<Rightarrow>
             Inr (try_batch (arith ev) (sqlite_at ev n) (session_get ev n) t0 t1
                    (s\<lparr>attempt := n + 1, trace := trace s @ line\<rparr>)))"

text \<open>
  The \<open>while current_id < end_id\<close> loop can run forever (a batch that always raises is
  retried without end), so it is run for at most a number of passes: \<open>Returned\<close> when
  the loop condition became false, \<open>Raised\<close> when an exception left the loop, and
  \<open>Unfinished\<close>, with the state reached, when the passes are used up.
\<close>

datatype 'f outcome = Returned "'f run" | Raised error "'f run" | Unfinished "'f run"

fun scrape_loop :: "nat \<Rightarrow> 'f env \<Rightarrow> int \<Rightarrow> int \<Rightarrow> 'f run \<Rightarrow> 'f outcome" where
  "scrape_loop 0 ev start_id end_id s =
     (if current_id s < end_id then Unfinished s else Returned s)"
| "scrape_loop (Suc fuel) ev start_id end_id s =
     (if current_id s < end_id then
        (case loop_body ev start_id end_id s of
           Inl e \<Rightarrow> Raised e s
         | Inr s' \<Rightarrow> scrape_loop fuel ev start_id end_id s')
      else Returned s)"

text \<open>Line 120: \<open>last_id + 1 if last_id else start_id\<close>; \<open>None\<close> and \<open>0\<close> are falsy.\<close>

definition resume_id :: "int option \<Rightarrow> int \<Rightarrow> int" where
  "resume_id last_id start_id =
     (case last_id of None \<Rightarrow> start_id | Some l \<Rightarrow> if l \<noteq> 0 then l + 1 else start_id)"

text \<open>
  Lines 119 to 123: the scraper as it enters the loop. The \<open>SELECT\<close> of line 119 is
  taken to succeed.
\<close>

definition start_run :: "scraper \<Rightarrow> int \<Rightarrow> 'f run" where
  "start_run sc start_id =
     \<lparr>successful_requests = successful_requests sc, failed_requests = failed_requests sc,
      batch_size = batch_size sc, db = db sc,
      current_id = resume_id (get_last_id (db sc)) start_id,
      batch_durations = [], attempt = 0, trace = []\<rparr>"

definition scrape_range ::
  "nat \<Rightarrow> 'f env \<Rightarrow> scraper \<Rightarrow> int \<Rightarrow> int \<Rightarrow> 'f outcome" where
  "scrape_range fuel ev sc start_id end_id =
     scrape_loop fuel ev start_id end_id (start_run sc start_id)"

text \<open>The state an outcome carries, and the identifiers requested in a trace.\<close>

fun final :: "'f outcome \<Rightarrow> 'f run" where
  "final (Returned s) = s"
| "final (Raised e s) = s"
| "final (Unfinished s) = s"

definition fetched :: "'f event list \<Rightarrow> int list" where
  "fetched es = List.map_filter (\<lambda>e. case e of Fetch i \<Rightarrow> Some i | _ \<Rightarrow> None) es"

section \<open>ConcurrencyLimiter: the semaphore around \<open>get_parcel_info\<close>\<close>

text \<open>
  Line 64 gives the scraper \<open>asyncio.Semaphore(1000)\<close>, and the whole body of
  \<open>get_parcel_info\<close> runs inside \<open>async with self.semaphore\<close> (line 70). The tasks of a
  batch are interleaved at their \<open>await\<close>s, so they are taken as a transition system. A
  task is at the semaphore, not yet let in; or in flight, inside the \<open>async with\<close>, with
  its request under way; or it has left the block, with a record, with \<open>None\<close>, or
  with an exception that \<open>except Exception\<close> does not catch.
\<close>

datatype fetch_outcome = GotRecord | GotAbsent | GotException








section \<open>Notions used to state the properties, and example data\<close>

text \<open>
  A sheet "has a non-empty possessor list" when its \<open>possessors\<close> entry is a list with
  at least one element; the specification's owner is the first element of that list in
  the first such sheet, in source order.
\<close>

definition has_possessors :: "pyval \<Rightarrow> bool" where
  "has_possessors sheet =
     (case py_get sheet ''possessors'' of Inr (PList (p # ps)) \<Rightarrow> True | _ \<Rightarrow> False)"

definition first_possessor :: "pyval list \<Rightarrow> pyval option" where
  "first_possessor sheets =
     (case List.find has_possessors sheets of
        None \<Rightarrow> None
      | Some sheet \<Rightarrow>
          (case py_get sheet ''possessors'' of Inr (PList (p # ps)) \<Rightarrow> Some p | _ \<Rightarrow> None))"

text \<open>The value \<open>d.get(k)\<close> of a dict \<open>d\<close>.\<close>

definition dict_get :: "(string \<times> pyval) list \<Rightarrow> string \<Rightarrow> pyval" where
  "dict_get kvs k = (case map_of kvs k of None \<Rightarrow> PNone | Some v \<Rightarrow> v)"

text \<open>Fresh counters, and a response body with three possession sheets.\<close>

definition no_requests :: counters where
  "no_requests = \<lparr>successful_requests = 0, failed_requests = 0\<rparr>"

definition ana :: pyval where
  "ana = PDict [(''name'', PStr ''Ana''), (''ownership'', PStr ''1/2''),
                (''address'', PStr ''Ilica 1'')]"

definition three_sheets :: "pyval list" where
  "three_sheets =
     [PDict [(''possessors'', PList [])],
      PDict [(''possessors'', PList [ana, PDict [(''name'', PStr ''Ivo'')]])],
      PDict [(''possessors'', PList [PDict [(''name'', PStr ''Eva'')]])]]"

definition body7 :: pyval where
  "body7 = PDict [(''parcelId'', PInt 7), (''possessionSheets'', PList three_sheets)]"

text \<open>
  Notions for one pass of the loop body, in the state \<open>s\<close> at its start: what a request
  yields whatever the counters are, the identifiers of the batch, the records it
  collects, what persisting them does, and the exception the \<open>try\<close> catches (if any).
\<close>

definition fetch_result :: "(int \<Rightarrow> response) \<Rightarrow> int \<Rightarrow> parcel option" where
  "fetch_result session i = snd (get_parcel_info no_requests session i)"

definition batch_ids :: "'f run \<Rightarrow> int list" where
  "batch_ids s = map (\<lambda>i. current_id s + int i) [0..<batch_size s]"

definition batch_records :: "(int \<Rightarrow> response) \<Rightarrow> 'f run \<Rightarrow> parcel list" where
  "batch_records session s = snd (process_batch session s (current_id s))"

definition batch_persist ::
  "sqlite \<Rightarrow> (int \<Rightarrow> response) \<Rightarrow> 'f run \<Rightarrow> conn \<times> error option" where
  "batch_persist eng session s =
     (if batch_records session s \<noteq> []
      then insert_many eng (db s) (batch_records session s)
      else (db s, None))"

definition batch_error :: "'f env \<Rightarrow> 'f run \<Rightarrow> error option" where
  "batch_error ev s =
     snd (batch_persist (sqlite_at ev (attempt s)) (session_get ev (attempt s)) s)"

text \<open>
  The ETA as the code computes it, in floats: the average of the window, the quotient
  of line 129, which is the identifiers left in units of \<open>batch_size\<close> and in general
  a fraction, and their product; and the progress events of a pass whose top does not
  raise.
\<close>

definition window_average :: "'f arith \<Rightarrow> 'f list \<Rightarrow> 'f" where
  "window_average ar w = float_div_int ar (float_sum ar w) (int (length w))"

definition remaining_fraction :: "'f arith \<Rightarrow> int \<Rightarrow> 'f run \<Rightarrow> 'f" where
  "remaining_fraction ar end_id s = int_truediv ar (end_id - current_id s) (int (batch_size s))"

definition eta_of :: "'f env \<Rightarrow> int \<Rightarrow> 'f run \<Rightarrow> 'f" where
  "eta_of ev end_id s =
     float_mul (arith ev) (window_average (arith ev) (batch_durations s))
       (remaining_fraction (arith ev) end_id s)"

definition progress_line :: "'f env \<Rightarrow> int \<Rightarrow> 'f run \<Rightarrow> 'f event list" where
  "progress_line ev end_id s =
     (if batch_durations s = [] then [] else [Progress (eta_of ev end_id s)])"

text \<open>
  The specification's ETA, in exact arithmetic: the average of the durations, and the
  remaining batch count, which is the number of batches left to run from \<open>current_id\<close>
  to \<open>end_id\<close>. The ETAs printed in a trace.
\<close>

definition average :: "rat list \<Rightarrow> rat" where
  "average ds = sum_list ds / of_nat (length ds)"

definition remaining_batch_count :: "int \<Rightarrow> 'f run \<Rightarrow> nat" where
  "remaining_batch_count end_id s =
     nat \<lceil>(of_int (end_id - current_id s) :: rat) / of_nat (batch_size s)\<rceil>"

definition etas :: "'f event list \<Rightarrow> 'f list" where
  "etas es = List.map_filter (\<lambda>e. case e of Progress x \<Rightarrow> Some x | _ \<Rightarrow> None) es"

text \<open>
  An arithmetic that is exact, on rationals: Python's floats agree with it wherever
  the operands and the exact result are floats, as the small whole numbers and halves
  of the examples below are. An outside world in which every request raises, the
  engine never fails and the \<open>n\<close>-th pass takes one second; and a stored row with key 5.
\<close>

definition exact_arith :: "rat arith" where
  "exact_arith =
     \<lparr>float_sub = (\<lambda>x y. x - y), float_sum = sum_list,
      float_div_int = (\<lambda>x n. x / of_int n),
      int_truediv = (\<lambda>a b. of_int a / of_int b),
      float_mul = (\<lambda>x y. x * y),
      float_to_int = (\<lambda>x. Inr (if 0 \<le> x then \<lfloor>x\<rfloor> else \<lceil>x\<rceil>))\<rparr>"

definition quiet_sqlite :: sqlite where
  "quiet_sqlite = \<lparr>text_rowid = (\<lambda>s. None), random_rowid = (\<lambda>ks. None),
                    current_timestamp = 0, io_fault = None\<rparr>"

definition quiet_env :: "rat env" where
  "quiet_env = \<lparr>session_get = (\<lambda>n i. RequestRaises), sqlite_at = (\<lambda>n. quiet_sqlite),
                 time_time = (\<lambda>n. (of_nat n, of_nat n + 1)),
                 stats_fault = (\<lambda>n. None), arith = exact_arith\<rparr>"

definition row5 :: row where
  "row5 = \<lparr>col_parcel_id = 5, col_municipality_name = SNull, col_parcel_number = SNull,
            col_address = SNull, col_area = SNull, col_owner_name = SNull,
            col_owner_ownership = SNull, col_owner_address = SNull, col_created_at = 0\<rparr>"

text \<open>
  Notions for the store: the keys of a table; the SQL value a field is bound to; the
  key a record names by itself (a NULL key names none: the engine picks a fresh one);
  the row a record is stored as under a key; a sequence of \<open>insert_many\<close> calls, each
  with the engine's choices during it; and two records to insert, the second with a
  field that cannot be bound.
\<close>

definition keys :: "row list \<Rightarrow> int list" where
  "keys rows = map col_parcel_id rows"

definition bound :: "pyval \<Rightarrow> sqlval" where
  "bound v = (case bind_param v of Inr x \<Rightarrow> x | Inl e \<Rightarrow> SNull)"

definition explicit_key :: "sqlite \<Rightarrow> pyval \<Rightarrow> int option" where
  "explicit_key eng v =
     (case bind_param v of
        Inr (SInt i) \<Rightarrow> Some i
      | Inr (SReal r) \<Rightarrow>
          if of_int \<lfloor>r\<rfloor> = r \<and> - (2 ^ 63) < \<lfloor>r\<rfloor> \<and> \<lfloor>r\<rfloor> < 2 ^ 63 - 1
          then Some \<lfloor>r\<rfloor> else None
      | Inr (SText s) \<Rightarrow> text_rowid eng s
      | _ \<Rightarrow> None)"

definition stored_row :: "sqlite \<Rightarrow> int \<Rightarrow> parcel \<Rightarrow> row" where
  "stored_row eng k p =
     \<lparr>col_parcel_id = k, col_municipality_name = bound (municipality_name p),
      col_parcel_number = bound (parcel_number p), col_address = bound (address p),
      col_area = bound (area p), col_owner_name = bound (owner_name p),
      col_owner_ownership = bound (owner_ownership p),
      col_owner_address = bound (owner_address p),
      col_created_at = current_timestamp eng\<rparr>"

definition parcel_at :: "int \<Rightarrow> string \<Rightarrow> parcel" where
  "parcel_at k a =
     \<lparr>parcel_id = PInt k, municipality_name = PNone, parcel_number = PNone,
      address = PStr a, area = PNone, owner_name = PNone, owner_ownership = PNone,
      owner_address = PNone\<rparr>"

definition unbindable :: parcel where
  "unbindable = (parcel_at 2 ''y'')\<lparr>area := PList []\<rparr>"



definition fresh_run :: "rat run" where
  "fresh_run = start_run (FastCadastralScraper []) 0"

text \<open>
  Notions for the timing: the \<open>n\<close> most recent elements of a history, the duration the
  pass begun in \<open>s\<close> records when it completes, the durations of the passes that
  completed during a run of the loop, in order, and a run that starts with two
  durations in its window.
\<close>

definition most_recent :: "nat \<Rightarrow> 'a list \<Rightarrow> 'a list" where
  "most_recent n xs = drop (length xs - n) xs"

definition pass_duration :: "'f env \<Rightarrow> 'f run \<Rightarrow> 'f" where
  "pass_duration ev s =
     float_sub (arith ev) (snd (time_time ev (attempt s))) (fst (time_time ev (attempt s)))"

fun completed_durations ::
  "nat \<Rightarrow> 'f env \<Rightarrow> int \<Rightarrow> int \<Rightarrow> 'f run \<Rightarrow> 'f list" where
  "completed_durations 0 ev start_id end_id s = []"
| "completed_durations (Suc fuel) ev start_id end_id s =
     (if current_id s < end_id then
        (case loop_body ev start_id end_id s of
           Inl e \<Rightarrow> []
         | Inr s' \<Rightarrow>
             (if batch_error ev s = None then [pass_duration ev s] else [])
             @ completed_durations fuel ev start_id end_id s')
      else [])"

definition warm_run :: "rat run" where
  "warm_run = fresh_run\<lparr>batch_durations := [2, 4]\<rparr>"

text \<open>
  An outside world in which only the request for 100 is answered, with \<open>body7\<close>; and
  the record \<open>get_parcel_info\<close> builds from \<open>body7\<close>.
\<close>

definition one_hit_env :: "rat env" where
  "one_hit_env =
     \<lparr>session_get = (\<lambda>n i. if i = 100 then Response 200 (Some body7) else RequestRaises),
      sqlite_at = (\<lambda>n. quiet_sqlite),
      time_time = (\<lambda>n. (of_nat n, of_nat n + 1)),
      stats_fault = (\<lambda>n. None), arith = exact_arith\<rparr>"

definition record7 :: parcel where
  "record7 = \<lparr>parcel_id = PInt 7, municipality_name = PNone, parcel_number = PNone,
            address = PNone, area = PNone, owner_name = PStr ''Ana'',
            owner_ownership = PStr ''1/2'', owner_address = PStr ''Ilica 1''\<rparr>"




section \<open>Properties of the fetcher\<close>

lemma ebind_Inr_iff: "ebind m f = Inr y \<longleftrightarrow> (\<exists>x. m = Inr x \<and> f x = Inr y)"
  by (cases m) (simp_all add: ebind_def)

lemma ebind_simps [simp]: "ebind (Inl e) f = Inl e" "ebind (Inr x) f = f x"
  by (simp_all add: ebind_def)

lemma py_getitem_get: "py_get v k = Inr x \<Longrightarrow> py_truthy x \<Longrightarrow> py_getitem v k = Inr x"
  by (cases v) (auto split: option.splits)

lemma py_first_dict:
  "py_first ps = Inr p \<Longrightarrow> py_get p k = Inr x \<Longrightarrow> \<exists>qs. ps = PList (p # qs)"
  apply (cases ps)
        apply simp_all
  subgoal for xs by (cases xs) auto
  subgoal for xs by (cases xs) auto
  done

lemma py_get_dict: "py_get (PDict kvs) k = Inr (dict_get kvs k)"
  by (simp add: dict_get_def split: option.splits)

lemma py_getitem_dict:
  "py_truthy (dict_get kvs k) \<Longrightarrow> py_getitem (PDict kvs) k = Inr (dict_get kvs k)"
  by (auto simp: dict_get_def split: option.splits)

lemma build_data_dict:
  "build_data (PDict kvs) =
     (let data = \<lparr>parcel_id = dict_get kvs ''parcelId'',
                  municipality_name = dict_get kvs ''cadMunicipalityName'',
                  parcel_number = dict_get kvs ''parcelNumber'',
                  address = dict_get kvs ''address'', area = dict_get kvs ''area'',
                  owner_name = PNone, owner_ownership = PNone, owner_address = PNone\<rparr>
      in if py_truthy (dict_get kvs ''possessionSheets'')
         then ebind (py_iter (dict_get kvs ''possessionSheets'')) (\<lambda>ss. scan_sheets ss data)
         else Inr data)"
  unfolding build_data_def py_get_dict ebind_simps Let_def
  by (simp add: py_getitem_dict del: py_getitem.simps cong: if_cong)

lemma build_data_Inr_dict: "build_data content = Inr d \<Longrightarrow> \<exists>kvs. content = PDict kvs"
  by (cases content) (simp_all add: build_data_def)

lemma get_parcel_info_Some:
  "get_parcel_info c session i = (c', Some d) \<longleftrightarrow>
     (\<exists>content. session i = Response 200 (Some content) \<and> py_truthy content
        \<and> build_data content = Inr d
        \<and> c' = c\<lparr>successful_requests := successful_requests c + 1\<rparr>)"
  by (auto simp: get_parcel_info_def Let_def split: response.splits option.splits sum.splits)

text \<open>
  The sheet loop leaves the owner fields as they were when no sheet has a possessor,
  and otherwise reads all three from the first possessor of the first sheet that has
  one.
\<close>

lemma scan_sheets_owner:
  "scan_sheets sheets data = Inr d \<Longrightarrow>
     (case first_possessor sheets of
        None \<Rightarrow> owner_name d = owner_name data \<and> owner_ownership d = owner_ownership data
                 \<and> owner_address d = owner_address data
      | Some p \<Rightarrow> py_get p ''name'' = Inr (owner_name d)
                 \<and> py_get p ''ownership'' = Inr (owner_ownership d)
                 \<and> py_get p ''address'' = Inr (owner_address d))"
proof (induction sheets)
  case Nil
  then show ?case by (simp add: first_possessor_def)
next
  case (Cons sheet rest)
  from Cons.prems obtain ps where ps: "py_get sheet ''possessors'' = Inr ps"
    by (auto simp: ebind_Inr_iff)
  show ?case
  proof (cases "py_truthy ps")
    case True
    with Cons.prems ps obtain possessor n ow ad where
      f: "py_first ps = Inr possessor" and
      g: "py_get possessor ''name'' = Inr n" "py_get possessor ''ownership'' = Inr ow"
         "py_get possessor ''address'' = Inr ad" and
      d: "d = data\<lparr>owner_name := n, owner_ownership := ow, owner_address := ad\<rparr>"
      by (auto simp: ebind_Inr_iff py_getitem_get)
    from py_first_dict[OF f g(1)] obtain qs where "ps = PList (possessor # qs)" by blast
    with ps g d show ?thesis
      by (simp add: first_possessor_def has_possessors_def)
  next
    case False
    with Cons.prems ps have r: "scan_sheets rest data = Inr d" by simp
    from False ps have "\<not> has_possessors sheet"
      by (auto simp: has_possessors_def split: pyval.splits list.splits)
    with Cons.IH[OF r] show ?thesis by (simp add: first_possessor_def)
  qed
qed

text \<open>
  C3. When a response yields a record and its body holds a list under
  \<open>possessionSheets\<close>, the record's three owner fields are the \<open>name\<close>, \<open>ownership\<close> and
  \<open>address\<close> of one possessor: the first possessor of the first sheet, in source order,
  whose possessor list is non-empty. Sheets after it play no part. When no sheet has a
  non-empty possessor list the three fields are \<open>None\<close>.
\<close>

theorem owner_from_first_possessor:
  assumes "get_parcel_info c session i = (c', Some d)"
      and "session i = Response st (Some content)"
      and "py_get content ''possessionSheets'' = Inr (PList sheets)"
  shows "case first_possessor sheets of
           None \<Rightarrow> owner_name d = PNone \<and> owner_ownership d = PNone \<and> owner_address d = PNone
         | Some p \<Rightarrow> py_get p ''name'' = Inr (owner_name d)
                    \<and> py_get p ''ownership'' = Inr (owner_ownership d)
                    \<and> py_get p ''address'' = Inr (owner_address d)"
proof -
  from assms(1,2) have b: "build_data content = Inr d"
    by (simp add: get_parcel_info_Some)
  then obtain kvs where c: "content = PDict kvs"
    using build_data_Inr_dict by blast
  with assms(3) have s: "dict_get kvs ''possessionSheets'' = PList sheets"
    by (simp add: py_get_dict del: py_get.simps)
  show ?thesis
  proof (cases "sheets = []")
    case True
    with b c s show ?thesis by (auto simp: build_data_dict first_possessor_def)
  next
    case False
    define data where "data = \<lparr>parcel_id = dict_get kvs ''parcelId'',
        municipality_name = dict_get kvs ''cadMunicipalityName'',
        parcel_number = dict_get kvs ''parcelNumber'',
        address = dict_get kvs ''address'', area = dict_get kvs ''area'',
        owner_name = PNone, owner_ownership = PNone, owner_address = PNone\<rparr>"
    have data: "owner_name data = PNone" "owner_ownership data = PNone"
      "owner_address data = PNone"
      by (simp_all add: data_def)
    from False b c s have r: "scan_sheets sheets data = Inr d"
      by (simp add: build_data_dict data_def)
    from scan_sheets_owner[OF r] data show ?thesis
      by (auto split: option.splits)
  qed
qed

lemma body7_record:
  "get_parcel_info no_requests (\<lambda>i. Response 200 (Some body7)) 7 =
     (\<lparr>successful_requests = 1, failed_requests = 0\<rparr>,
      Some \<lparr>parcel_id = PInt 7, municipality_name = PNone, parcel_number = PNone,
            address = PNone, area = PNone, owner_name = PStr ''Ana'',
            owner_ownership = PStr ''1/2'', owner_address = PStr ''Ilica 1''\<rparr>)"
  by (simp add: get_parcel_info_def no_requests_def body7_def three_sheets_def ana_def
      build_data_def)

lemma three_sheets_first: "first_possessor three_sheets = Some ana"
  by (simp add: first_possessor_def has_possessors_def three_sheets_def)

theorem owner_from_first_possessor_witness:
  "get_parcel_info no_requests (\<lambda>i. Response 200 (Some body7)) 7 =
     (\<lparr>successful_requests = 1, failed_requests = 0\<rparr>,
      Some \<lparr>parcel_id = PInt 7, municipality_name = PNone, parcel_number = PNone,
            address = PNone, area = PNone, owner_name = PStr ''Ana'',
            owner_ownership = PStr ''1/2'', owner_address = PStr ''Ilica 1''\<rparr>)
   \<and> py_get body7 ''possessionSheets'' = Inr (PList three_sheets)
   \<and> first_possessor three_sheets = Some ana
   \<and> py_get ana ''name'' = Inr (PStr ''Ana'')
   \<and> py_get ana ''ownership'' = Inr (PStr ''1/2'')
   \<and> py_get ana ''address'' = Inr (PStr ''Ilica 1'')"
proof -
  have sheets: "py_get body7 ''possessionSheets'' = Inr (PList three_sheets)"
    by (simp add: body7_def)
  from owner_from_first_possessor[OF body7_record refl sheets] body7_record sheets
  show ?thesis
    by (simp add: three_sheets_first)
qed

text \<open>
  C6. A fetch always returns to its caller: with no record and \<open>failed_requests\<close> one
  higher when the request or \<open>response.json()\<close> raises, when the status is not 200, and
  when building the record from a truthy body raises; with no record and
  \<open>successful_requests\<close> one higher when the status is 200 and the body is falsy. It
  returns a record exactly when the status is 200 and the body is truthy and well
  formed, and then only \<open>successful_requests\<close> moves.
\<close>

theorem get_parcel_info_outcomes:
  fixes c :: "'a counters_scheme"
  shows
   "(session i = RequestRaises \<or> session i = Response 200 None \<longrightarrow>
       get_parcel_info c session i = (c\<lparr>failed_requests := failed_requests c + 1\<rparr>, None))
  \<and> (\<forall>st body. session i = Response st body \<and> st \<noteq> 200 \<longrightarrow>
       get_parcel_info c session i = (c\<lparr>failed_requests := failed_requests c + 1\<rparr>, None))
  \<and> (\<forall>content. session i = Response 200 (Some content) \<and> \<not> py_truthy content \<longrightarrow>
       get_parcel_info c session i =
         (c\<lparr>successful_requests := successful_requests c + 1\<rparr>, None))
  \<and> (\<forall>content e. session i = Response 200 (Some content) \<and> py_truthy content
         \<and> build_data content = Inl e \<longrightarrow>
       snd (get_parcel_info c session i) = None
       \<and> failed_requests (fst (get_parcel_info c session i)) = failed_requests c + 1)
  \<and> ((\<exists>d. snd (get_parcel_info c session i) = Some d) \<longleftrightarrow>
       (\<exists>content d. session i = Response 200 (Some content) \<and> py_truthy content
           \<and> build_data content = Inr d))
  \<and> (\<forall>d. snd (get_parcel_info c session i) = Some d \<longrightarrow>
       fst (get_parcel_info c session i) =
         c\<lparr>successful_requests := successful_requests c + 1\<rparr>)"
  by (auto simp: get_parcel_info_def Let_def split: response.splits option.splits sum.splits)


theorem get_parcel_info_outcomes_witness:
  "get_parcel_info no_requests (\<lambda>i. RequestRaises) 5 =
     (\<lparr>successful_requests = 0, failed_requests = 1\<rparr>, None)
   \<and> get_parcel_info no_requests (\<lambda>i. Response 404 (Some body7)) 5 =
     (\<lparr>successful_requests = 0, failed_requests = 1\<rparr>, None)
   \<and> get_parcel_info no_requests (\<lambda>i. Response 200 (Some (PDict []))) 5 =
     (\<lparr>successful_requests = 1, failed_requests = 0\<rparr>, None)
   \<and> snd (get_parcel_info no_requests (\<lambda>i. Response 200 (Some (PList [PInt 1]))) 5) = None
   \<and> failed_requests
         (fst (get_parcel_info no_requests (\<lambda>i. Response 200 (Some (PList [PInt 1]))) 5)) = 1
   \<and> (\<exists>d. snd (get_parcel_info no_requests (\<lambda>i. Response 200 (Some body7)) 5) = Some d)
   \<and> fst (get_parcel_info no_requests (\<lambda>i. Response 200 (Some body7)) 5) =
       \<lparr>successful_requests = 1, failed_requests = 0\<rparr>"
proof -
  have a: "get_parcel_info no_requests (\<lambda>i. RequestRaises) 5 =
     (\<lparr>successful_requests = 0, failed_requests = 1\<rparr>, None)"
    using get_parcel_info_outcomes[of "\<lambda>i. RequestRaises" 5 no_requests]
    by (simp add: no_requests_def)
  have b: "get_parcel_info no_requests (\<lambda>i. Response 404 (Some body7)) 5 =
     (\<lparr>successful_requests = 0, failed_requests = 1\<rparr>, None)"
    using get_parcel_info_outcomes[of "\<lambda>i. Response 404 (Some body7)" 5 no_requests]
    by (simp add: no_requests_def)
  have c: "get_parcel_info no_requests (\<lambda>i. Response 200 (Some (PDict []))) 5 =
     (\<lparr>successful_requests = 1, failed_requests = 0\<rparr>, None)"
    using get_parcel_info_outcomes[of "\<lambda>i. Response 200 (Some (PDict []))" 5 no_requests]
    by (simp add: no_requests_def)
  have "build_data (PList [PInt 1]) = Inl AttributeError"
    by (simp add: build_data_def)
  then have d: "snd (get_parcel_info no_requests (\<lambda>i. Response 200 (Some (PList [PInt 1]))) 5) = None
      \<and> failed_requests
         (fst (get_parcel_info no_requests (\<lambda>i. Response 200 (Some (PList [PInt 1]))) 5)) = 1"
    using get_parcel_info_outcomes[of "\<lambda>i. Response 200 (Some (PList [PInt 1]))" 5 no_requests]
    by (simp add: no_requests_def)
  have "py_truthy body7 \<and> (\<exists>d. build_data body7 = Inr d)"
    by (simp add: body7_def build_data_def three_sheets_def ana_def)
  then have e: "(\<exists>d. snd (get_parcel_info no_requests (\<lambda>i. Response 200 (Some body7)) 5) = Some d)"
    using get_parcel_info_outcomes[of "\<lambda>i. Response 200 (Some body7)" 5 no_requests]
    by simp
  then have f: "fst (get_parcel_info no_requests (\<lambda>i. Response 200 (Some body7)) 5) =
       \<lparr>successful_requests = 1, failed_requests = 0\<rparr>"
    using get_parcel_info_outcomes[of "\<lambda>i. Response 200 (Some body7)" 5 no_requests]
    by (auto simp: no_requests_def)
  from a b c d e f show ?thesis by blast
qed

section \<open>One pass of the scheduler's loop\<close>

lemma get_parcel_info_counters:
  fixes c :: "'a counters_scheme"
  assumes "get_parcel_info c session i = (c', r)"
  shows "c' = c\<lparr>successful_requests := successful_requests c',
                  failed_requests := failed_requests c'\<rparr>
           \<and> successful_requests c \<le> successful_requests c'
           \<and> failed_requests c \<le> failed_requests c'
           \<and> successful_requests c + failed_requests c + 1
                 \<le> successful_requests c' + failed_requests c'
           \<and> r = fetch_result session i"
  using assms
  by (auto simp: get_parcel_info_def fetch_result_def Let_def
      split: response.splits option.splits sum.splits if_splits)

lemma gather_props:
  assumes "gather session ids s = (s', rs)"
  shows "s' = s\<lparr>successful_requests := successful_requests s',
                 failed_requests := failed_requests s',
                 trace := trace s @ map Fetch ids\<rparr>
         \<and> successful_requests s + failed_requests s + length ids
               \<le> successful_requests s' + failed_requests s'
         \<and> rs = map (fetch_result session) ids"
  using assms
proof (induction ids arbitrary: s s' rs)
  case Nil
  then show ?case by simp
next
  case (Cons i ids)
  obtain s1 r where g: "get_parcel_info (s\<lparr>trace := trace s @ [Fetch i]\<rparr>) session i = (s1, r)"
    by (cases "get_parcel_info (s\<lparr>trace := trace s @ [Fetch i]\<rparr>) session i") 
  obtain s2 rs2 where h: "gather session ids s1 = (s2, rs2)"
    by (cases "gather session ids s1")
  from Cons.prems g h have e: "s' = s2" "rs = r # rs2" by simp_all
  define a b where "a = successful_requests s1" and "b = failed_requests s1"
  define a2 b2 where "a2 = successful_requests s2" and "b2 = failed_requests s2"
  from get_parcel_info_counters[OF g]
  have s1: "s1 = s\<lparr>trace := trace s @ [Fetch i], successful_requests := a,
                    failed_requests := b\<rparr>"
    and n1: "successful_requests s + failed_requests s + 1 \<le> a + b"
    and r: "r = fetch_result session i"
    by (simp_all add: a_def b_def)
  from Cons.IH[OF h]
  have s2: "s2 = s1\<lparr>successful_requests := a2, failed_requests := b2,
                     trace := trace s1 @ map Fetch ids\<rparr>"
    and n2: "a + b + length ids \<le> a2 + b2"
    and rs2: "rs2 = map (fetch_result session) ids"
    by (simp_all add: a_def b_def a2_def b2_def)
  have "s' = s\<lparr>successful_requests := a2, failed_requests := b2,
                trace := trace s @ map Fetch (i # ids)\<rparr>"
    unfolding e s2 by (simp add: s1)
  moreover have "successful_requests s' = a2" "failed_requests s' = b2"
    by (simp_all add: e a2_def b2_def)
  ultimately show ?case
    using n1 n2 r rs2 e by simp
qed

lemma process_batch_props:
  assumes "process_batch session s (current_id s) = (s', rs)"
  shows "s' = s\<lparr>successful_requests := successful_requests s',
                 failed_requests := failed_requests s',
                 trace := trace s @ map Fetch (batch_ids s)\<rparr>
         \<and> successful_requests s + failed_requests s + batch_size s
               \<le> successful_requests s' + failed_requests s'
         \<and> rs = List.map_filter (\<lambda>r. r) (map (fetch_result session) (batch_ids s))"
proof -
  obtain s1 rs1 where g: "gather session (batch_ids s) s = (s1, rs1)"
    by (cases "gather session (batch_ids s) s")
  with assms have "s' = s1" "rs = List.map_filter (\<lambda>r. r) rs1"
    by (simp_all add: process_batch_def batch_ids_def)
  with gather_props[OF g] show ?thesis
    by (simp add: batch_ids_def)
qed


lemma batch_records_eq:
  "batch_records session s = List.map_filter (\<lambda>r. r) (map (fetch_result session) (batch_ids s))"
  using process_batch_props[of session s] 
  by (cases "process_batch session s (current_id s)") (simp add: batch_records_def)

lemma try_batch_eq:
  assumes bs: "0 < batch_size s"
  shows "\<exists>a b. successful_requests s + failed_requests s + batch_size s \<le> a + b \<and>
     try_batch ar eng session t0 t1 s =
       (case snd (batch_persist eng session s) of
          Some e \<Rightarrow> s\<lparr>successful_requests := a, failed_requests := b,
                      db := fst (batch_persist eng session s),
                      trace := trace s @ map Fetch (batch_ids s) @ [Sleep 60]\<rparr>
        | None \<Rightarrow> s\<lparr>successful_requests := a, failed_requests := b,
                    db := fst (batch_persist eng session s),
                    trace := trace s @ map Fetch (batch_ids s),
                    batch_durations := push_duration (batch_durations s) (float_sub ar t1 t0),
                    current_id := current_id s + int (batch_size s)\<rparr>)"
proof -
  obtain s1 rs where p: "process_batch session s (current_id s) = (s1, rs)"
    by (cases "process_batch session s (current_id s)")
  define a b where "a = successful_requests s1" and "b = failed_requests s1"
  from process_batch_props[OF p]
  have s1: "s1 = s\<lparr>successful_requests := a, failed_requests := b,
                    trace := trace s @ map Fetch (batch_ids s)\<rparr>"
    and n: "successful_requests s + failed_requests s + batch_size s \<le> a + b"
    by (simp_all add: a_def b_def)
  have rs: "rs = batch_records session s"
    using p by (simp add: batch_records_def)
  obtain d err where q: "batch_persist eng session s = (d, err)"
    by (cases "batch_persist eng session s")
  have q': "(if rs \<noteq> [] then insert_many eng (db s1) rs else (db s1, None)) = (d, err)"
    using q by (auto simp: batch_persist_def rs s1 split: if_splits)
  from n bs have pos: "0 < a + b" by linarith
  have "try_batch ar eng session t0 t1 s =
       (case err of
          Some e \<Rightarrow> s\<lparr>successful_requests := a, failed_requests := b, db := d,
                      trace := trace s @ map Fetch (batch_ids s) @ [Sleep 60]\<rparr>
        | None \<Rightarrow> s\<lparr>successful_requests := a, failed_requests := b, db := d,
                    trace := trace s @ map Fetch (batch_ids s),
                    batch_durations := push_duration (batch_durations s) (float_sub ar t1 t0),
                    current_id := current_id s + int (batch_size s)\<rparr>)"
    unfolding try_batch_def p Let_def prod.case q'
    using pos bs by (cases err) (simp_all add: s1)
  with n q show ?thesis
    by - (rule exI[of _ a], rule exI[of _ b], cases err, simp_all)
qed

lemma batch_persist_cong:
  "batch_size s' = batch_size s \<Longrightarrow> current_id s' = current_id s \<Longrightarrow> db s' = db s \<Longrightarrow>
     batch_persist eng session s' = batch_persist eng session s"
  by (simp add: batch_persist_def batch_records_eq batch_ids_def)

text \<open>The top of a pass: when it does not raise, and what it prints then.\<close>

lemma report_progress_Inr:
  assumes "report_progress ev a b s = Inr line"
  shows "0 < batch_size s" and "line = progress_line ev b s"
proof -
  from assms show "0 < batch_size s"
    by (cases "batch_size s") (simp_all add: report_progress_def)
  from assms show "line = progress_line ev b s"
    by (auto simp: report_progress_def Let_def ebind_Inr_iff progress_line_def eta_of_def
        window_average_def remaining_fraction_def split: if_splits)
qed

lemma report_progress_empty:
  "batch_durations s = [] \<Longrightarrow> 0 < batch_size s \<Longrightarrow> report_progress ev a b s = Inr []"
  by (simp add: report_progress_def)

lemma loop_body_Inl: "loop_body ev a b s = Inl e \<longleftrightarrow> report_progress ev a b s = Inl e"
  by (auto simp: loop_body_def Let_def split: prod.splits sum.splits)

lemma loop_body_empty_window:
  assumes "batch_durations s = []" and "0 < batch_size s"
  shows "\<exists>s'. loop_body ev a b s = Inr s'"
  using report_progress_empty[OF assms, of ev a b] loop_body_Inl[of ev a b s]
  by (cases "loop_body ev a b s") auto

lemma loop_body_Inr:
  assumes "loop_body ev a b s = Inr s'"
  shows "\<exists>x y. successful_requests s + failed_requests s + batch_size s \<le> x + y \<and>
     s' = (case batch_error ev s of
             Some e \<Rightarrow>
               s\<lparr>attempt := attempt s + 1, successful_requests := x, failed_requests := y,
                 db := fst (batch_persist (sqlite_at ev (attempt s)) (session_get ev (attempt s)) s),
                 trace := trace s @ progress_line ev b s @ map Fetch (batch_ids s) @ [Sleep 60]\<rparr>
           | None \<Rightarrow>
               s\<lparr>attempt := attempt s + 1, successful_requests := x, failed_requests := y,
                 db := fst (batch_persist (sqlite_at ev (attempt s)) (session_get ev (attempt s)) s),
                 trace := trace s @ progress_line ev b s @ map Fetch (batch_ids s),
                 batch_durations :=
                   push_duration (batch_durations s) (pass_duration ev s),
                 current_id := current_id s + int (batch_size s)\<rparr>)"
proof -
  define eng session where "eng = sqlite_at ev (attempt s)"
    and "session = session_get ev (attempt s)"
  define s1 where "s1 = s\<lparr>attempt := attempt s + 1, trace := trace s @ progress_line ev b s\<rparr>"
  obtain t0 t1 where t: "time_time ev (attempt s) = (t0, t1)"
    by (cases "time_time ev (attempt s)")
  from assms obtain line where line: "report_progress ev a b s = Inr line"
    by (cases "report_progress ev a b s") (auto simp: loop_body_def Let_def split: prod.splits)
  note rp = report_progress_Inr[OF line]
  have bs: "0 < batch_size s" by (rule rp(1))
  have s': "s' = try_batch (arith ev) eng session t0 t1 s1"
    using assms line rp(2)
    by (simp add: loop_body_def Let_def t s1_def eng_def session_def)
  have same: "batch_persist eng session s1 = batch_persist eng session s"
    by (rule batch_persist_cong) (simp_all add: s1_def)
  have ids: "batch_ids s1 = batch_ids s"
    by (simp add: batch_ids_def s1_def)
  from bs have "0 < batch_size s1" by (simp add: s1_def)
  from try_batch_eq[OF this, of "arith ev" eng session t0 t1] obtain x y where
    n: "successful_requests s1 + failed_requests s1 + batch_size s1 \<le> x + y" and
    e: "try_batch (arith ev) eng session t0 t1 s1 =
       (case snd (batch_persist eng session s1) of
          Some e \<Rightarrow> s1\<lparr>successful_requests := x, failed_requests := y,
                      db := fst (batch_persist eng session s1),
                      trace := trace s1 @ map Fetch (batch_ids s1) @ [Sleep 60]\<rparr>
        | None \<Rightarrow> s1\<lparr>successful_requests := x, failed_requests := y,
                    db := fst (batch_persist eng session s1),
                    trace := trace s1 @ map Fetch (batch_ids s1),
                    batch_durations :=
                      push_duration (batch_durations s1) (float_sub (arith ev) t1 t0),
                    current_id := current_id s1 + int (batch_size s1)\<rparr>)"
    by blast
  have be: "batch_error ev s = snd (batch_persist eng session s)"
    by (simp add: batch_error_def eng_def session_def)
  have n': "successful_requests s + failed_requests s + batch_size s \<le> x + y"
    using n by (simp add: s1_def)
  have dt: "pass_duration ev s = float_sub (arith ev) t1 t0"
    by (simp add: pass_duration_def t)
  show ?thesis
  proof (cases "snd (batch_persist eng session s)")
    case None
    then have "s' = s1\<lparr>successful_requests := x, failed_requests := y,
                    db := fst (batch_persist eng session s),
                    trace := trace s1 @ map Fetch (batch_ids s),
                    batch_durations :=
                      push_duration (batch_durations s1) (float_sub (arith ev) t1 t0),
                    current_id := current_id s1 + int (batch_size s1)\<rparr>"
      by (simp add: s' e same ids)
    with None n' show ?thesis
      unfolding be dt
      by - (rule exI[of _ x], rule exI[of _ y], simp add: s1_def eng_def session_def)
  next
    case (Some err)
    then have "s' = s1\<lparr>successful_requests := x, failed_requests := y,
                      db := fst (batch_persist eng session s),
                      trace := trace s1 @ map Fetch (batch_ids s) @ [Sleep 60]\<rparr>"
      by (simp add: s' e same ids)
    with Some n' show ?thesis
      unfolding be dt
      by - (rule exI[of _ x], rule exI[of _ y], simp add: s1_def eng_def session_def)
  qed
qed

section \<open>The scan loop\<close>

lemma fetched_append [simp]: "fetched (xs @ ys) = fetched xs @ fetched ys"
  by (simp add: fetched_def List.map_filter_def)

lemma fetched_Fetch [simp]: "fetched (map Fetch ids) = ids"
  by (induction ids) (simp_all add: fetched_def map_filter_simps)

lemma fetched_simps [simp]: "fetched [] = []" "fetched (Fetch i # es) = i # fetched es"
  "fetched (Sleep n # es) = fetched es" "fetched (Progress r # es) = fetched es"
  by (simp_all add: fetched_def map_filter_simps)

lemma fetched_progress_line [simp]: "fetched (progress_line ev b s) = []"
  by (simp add: progress_line_def)

lemma loop_body_step:
  assumes "loop_body ev a b s = Inr s'"
  shows "fetched (trace s') = fetched (trace s) @ batch_ids s"
    and "batch_size s' = batch_size s"
    and "0 < batch_size s"
    and "current_id s' = (if batch_error ev s = None then current_id s + int (batch_size s) else current_id s)"
    and "attempt s' = attempt s + 1"
proof -
  from loop_body_Inr[OF assms] obtain x y where
    s': "s' = (case batch_error ev s of
             Some e \<Rightarrow>
               s\<lparr>attempt := attempt s + 1, successful_requests := x, failed_requests := y,
                 db := fst (batch_persist (sqlite_at ev (attempt s)) (session_get ev (attempt s)) s),
                 trace := trace s @ progress_line ev b s @ map Fetch (batch_ids s) @ [Sleep 60]\<rparr>
           | None \<Rightarrow>
               s\<lparr>attempt := attempt s + 1, successful_requests := x, failed_requests := y,
                 db := fst (batch_persist (sqlite_at ev (attempt s)) (session_get ev (attempt s)) s),
                 trace := trace s @ progress_line ev b s @ map Fetch (batch_ids s),
                 batch_durations :=
                   push_duration (batch_durations s) (pass_duration ev s),
                 current_id := current_id s + int (batch_size s)\<rparr>)"
    by blast
  show "fetched (trace s') = fetched (trace s) @ batch_ids s"
    by (cases "batch_error ev s") (simp_all add: s')
  show "batch_size s' = batch_size s"
    by (cases "batch_error ev s") (simp_all add: s')
  show "current_id s' = (if batch_error ev s = None then current_id s + int (batch_size s) else current_id s)"
    by (cases "batch_error ev s") (simp_all add: s')
  show "attempt s' = attempt s + 1"
    by (cases "batch_error ev s") (simp_all add: s')
  from assms obtain line where "report_progress ev a b s = Inr line"
    by (cases "report_progress ev a b s") (auto simp: loop_body_def Let_def split: prod.splits)
  then show "0 < batch_size s" by (rule report_progress_Inr(1))
qed

lemma batch_ids_bounds: "i \<in> set (batch_ids s) \<longleftrightarrow> current_id s \<le> i \<and> i < current_id s + int (batch_size s)"
proof -
  have "i \<in> set (batch_ids s) \<longleftrightarrow> (\<exists>k<batch_size s. i = current_id s + int k)"
    by (auto simp: batch_ids_def)
  also have "\<dots> \<longleftrightarrow> current_id s \<le> i \<and> i < current_id s + int (batch_size s)"
  proof
    assume "current_id s \<le> i \<and> i < current_id s + int (batch_size s)"
    then have "nat (i - current_id s) < batch_size s \<and> i = current_id s + int (nat (i - current_id s))"
      by auto
    then show "\<exists>k<batch_size s. i = current_id s + int k" by blast
  qed auto
  finally show ?thesis .
qed


lemma scrape_loop_fetched:
  "\<exists>more. fetched (trace (final (scrape_loop fuel ev a b s))) = fetched (trace s) @ more
      \<and> (\<forall>i\<in>set more. current_id s \<le> i \<and> i < b + int (batch_size s) - 1)
      \<and> batch_size (final (scrape_loop fuel ev a b s)) = batch_size s"
proof (induction fuel arbitrary: s)
  case 0
  then show ?case by simp
next
  case (Suc fuel)
  show ?case
  proof (cases "current_id s < b")
    case False
    then show ?thesis by simp
  next
    case True
    show ?thesis
    proof (cases "loop_body ev a b s")
      case (Inl e)
      with True show ?thesis by simp
    next
      case (Inr s')
      note st = loop_body_step[OF Inr]
      from Suc.IH[of s'] obtain more where
        m: "fetched (trace (final (scrape_loop fuel ev a b s'))) = fetched (trace s') @ more"
        and lb: "\<forall>i\<in>set more. current_id s' \<le> i \<and> i < b + int (batch_size s') - 1"
        and bs: "batch_size (final (scrape_loop fuel ev a b s')) = batch_size s'"
        by blast
      have c: "current_id s \<le> current_id s'" using st(4) by (simp split: if_splits)
      have "fetched (trace (final (scrape_loop (Suc fuel) ev a b s))) =
              fetched (trace s) @ (batch_ids s @ more)"
        using True Inr m st(1) by simp
      moreover have "\<forall>i\<in>set (batch_ids s @ more). current_id s \<le> i \<and> i < b + int (batch_size s) - 1"
        using lb c True st(2) by (auto simp: batch_ids_bounds)
      moreover have "batch_size (final (scrape_loop (Suc fuel) ev a b s)) = batch_size s"
        using True Inr bs st(2) by simp
      ultimately show ?thesis by blast
    qed
  qed
qed

lemma start_run_simps [simp]:
  "current_id (start_run sc a) = resume_id (get_last_id (db sc)) a"
  "batch_size (start_run sc a) = batch_size sc"
  "batch_durations (start_run sc a) = []"
  "trace (start_run sc a) = []"
  "db (start_run sc a) = db sc"
  "attempt (start_run sc a) = 0"
  by (simp_all add: start_run_def)

lemma scrape_loop_first_batch:
  assumes "current_id s < b" and "0 < batch_size s" and "batch_durations s = []"
  shows "\<exists>more. fetched (trace (final (scrape_loop (Suc fuel) ev a b s))) =
            fetched (trace s) @ batch_ids s @ more"
proof -
  from assms(2,3) obtain s' where b: "loop_body ev a b s = Inr s'"
    using loop_body_empty_window[where s = s and ev = ev and a = a and b = b] by blast
  from scrape_loop_fetched[of fuel ev a b s'] obtain more where
    "fetched (trace (final (scrape_loop fuel ev a b s'))) = fetched (trace s') @ more"
    by blast
  then have "fetched (trace (final (scrape_loop (Suc fuel) ev a b s))) =
      fetched (trace s) @ batch_ids s @ more"
    using assms(1) b loop_body_step(1)[OF b] by simp
  then show ?thesis by blast
qed

lemma scrape_range_fetched:
  "\<forall>i\<in>set (fetched (trace (final (scrape_range fuel ev sc a b)))).
      resume_id (get_last_id (db sc)) a \<le> i \<and> i < b + int (batch_size sc) - 1"
  using scrape_loop_fetched[of fuel ev a b "start_run sc a"]
  by (auto simp: scrape_range_def)

lemma scrape_range_first_batch:
  assumes "resume_id (get_last_id (db sc)) a < b" and "0 < batch_size sc"
  shows "\<exists>more. fetched (trace (final (scrape_range (Suc fuel) ev sc a b))) =
            map (\<lambda>i. resume_id (get_last_id (db sc)) a + int i) [0..<batch_size sc] @ more"
  using scrape_loop_first_batch[where s = "start_run sc a" and b = b and a = a
      and fuel = fuel and ev = ev] assms
  by (simp add: scrape_range_def batch_ids_def)

lemma scrape_range_hd:
  assumes "resume_id (get_last_id (db sc)) a < b" and "0 < batch_size sc"
  shows "hd (fetched (trace (final (scrape_range (Suc fuel) ev sc a b)))) =
           resume_id (get_last_id (db sc)) a"
proof -
  from scrape_range_first_batch[OF assms, of fuel ev] obtain more where
    "fetched (trace (final (scrape_range (Suc fuel) ev sc a b))) =
       map (\<lambda>i. resume_id (get_last_id (db sc)) a + int i) [0..<batch_size sc] @ more"
    by blast
  with assms(2) show ?thesis
    by (cases "batch_size sc") (simp_all add: upt_rec del: upt_Suc)
qed

text \<open>
  C1 (as the code has it). When the store holds a maximum \<open>parcel_id\<close> \<open>M\<close> other than
  zero, the scan starts at \<open>M + 1\<close> whatever the configured start is: no identifier up
  to \<open>M\<close> is ever requested, and the first request, when there is one, is for \<open>M + 1\<close>.
  When the store is empty the scan starts at the configured start.
\<close>

theorem resume_from_last_id:
  "(get_last_id (db sc) = Some M \<and> M \<noteq> 0 \<longrightarrow>
      current_id (start_run sc start_id) = M + 1
    \<and> (\<forall>i\<in>set (fetched (trace (final (scrape_range fuel ev sc start_id end_id)))). M < i)
    \<and> (M + 1 < end_id \<and> 0 < batch_size sc \<longrightarrow>
         hd (fetched (trace (final (scrape_range (Suc fuel) ev sc start_id end_id)))) = M + 1))
 \<and> (get_last_id (db sc) = None \<longrightarrow>
      current_id (start_run sc start_id) = start_id
    \<and> (\<forall>i\<in>set (fetched (trace (final (scrape_range fuel ev sc start_id end_id)))).
          start_id \<le> i)
    \<and> (start_id < end_id \<and> 0 < batch_size sc \<longrightarrow>
         hd (fetched (trace (final (scrape_range (Suc fuel) ev sc start_id end_id)))) = start_id))"
proof (intro conjI impI)
  assume h: "get_last_id (db sc) = Some M \<and> M \<noteq> 0"
  then have r: "resume_id (get_last_id (db sc)) start_id = M + 1"
    by (simp add: resume_id_def)
  show "current_id (start_run sc start_id) = M + 1" using r by simp
  show "\<forall>i\<in>set (fetched (trace (final (scrape_range fuel ev sc start_id end_id)))). M < i"
    using scrape_range_fetched[of fuel ev sc start_id end_id] r by auto
  assume "M + 1 < end_id \<and> 0 < batch_size sc"
  then show "hd (fetched (trace (final (scrape_range (Suc fuel) ev sc start_id end_id)))) = M + 1"
    using scrape_range_hd[of sc start_id end_id fuel ev] r by simp
next
  assume h: "get_last_id (db sc) = None"
  then have r: "resume_id (get_last_id (db sc)) start_id = start_id"
    by (simp add: resume_id_def)
  show "current_id (start_run sc start_id) = start_id" using r by simp
  show "\<forall>i\<in>set (fetched (trace (final (scrape_range fuel ev sc start_id end_id)))). start_id \<le> i"
    using scrape_range_fetched[of fuel ev sc start_id end_id] r by auto
  assume "start_id < end_id \<and> 0 < batch_size sc"
  then show "hd (fetched (trace (final (scrape_range (Suc fuel) ev sc start_id end_id)))) = start_id"
    using scrape_range_hd[of sc start_id end_id fuel ev] r by simp
qed

lemma last_id_row5: "get_last_id (db (FastCadastralScraper [row5])) = Some 5"
  by (simp add: get_last_id_def FastCadastralScraper_def connect_def row5_def)

lemma last_id_empty: "get_last_id (db (FastCadastralScraper [])) = None"
  by (simp add: get_last_id_def FastCadastralScraper_def connect_def)

lemma batch_size_init [simp]: "batch_size (FastCadastralScraper rows) = 10000"
  by (simp add: FastCadastralScraper_def)

theorem resume_from_last_id_witness:
  "get_last_id (db (FastCadastralScraper [row5])) = Some 5
   \<and> hd (fetched (trace (final
        (scrape_range 1 quiet_env (FastCadastralScraper [row5]) 100 200)))) = 6
   \<and> get_last_id (db (FastCadastralScraper [])) = None
   \<and> hd (fetched (trace (final
        (scrape_range 1 quiet_env (FastCadastralScraper []) 100 200)))) = 100"
  using resume_from_last_id[of "FastCadastralScraper [row5]" 5 100 0 quiet_env 200]
    resume_from_last_id[of "FastCadastralScraper []" 0 100 0 quiet_env 200]
    last_id_row5 last_id_empty
  by simp

text \<open>
  With 5 as the largest stored key and 100 as the configured start, the first request
  is for 6, not for \<open>max (5 + 1) 100\<close>.
\<close>

theorem resume_max_counterexample:
  "get_last_id (db (FastCadastralScraper [row5])) = Some 5
   \<and> hd (fetched (trace (final
        (scrape_range 1 quiet_env (FastCadastralScraper [row5]) 100 200)))) = 6
   \<and> max (5 + 1) (100 :: int) = 100"
  using scrape_range_hd[of "FastCadastralScraper [row5]" 100 200 0 quiet_env] last_id_row5
  by (simp add: resume_id_def)


text \<open>
  C2 (as the code has it). The batch started at \<open>current_id\<close> requests exactly the
  \<open>batch_size\<close> identifiers from \<open>current_id\<close> on, whatever \<open>end_id\<close> is: the last batch
  is not shortened. Over a whole scan every requested identifier is below
  \<open>end_id + batch_size - 1\<close>.
\<close>

theorem batch_fetches_full_range:
  "(loop_body ev start_id end_id s = Inr s' \<longrightarrow>
      fetched (trace s') =
        fetched (trace s) @ map (\<lambda>i. current_id s + int i) [0..<batch_size s])
 \<and> (\<forall>i\<in>set (fetched (trace (final (scrape_range fuel ev sc start_id end_id)))).
      i < end_id + int (batch_size sc) - 1)"
  using loop_body_step(1)[of ev start_id end_id s s']
    scrape_range_fetched[of fuel ev sc start_id end_id]
  by (simp add: batch_ids_def)

lemma first_pass_quiet:
  "\<exists>more. fetched (trace (final (scrape_range 1 quiet_env (FastCadastralScraper []) 0 1))) =
     map (\<lambda>i. 0 + int i) [0..<10000] @ more"
  using scrape_range_first_batch[of "FastCadastralScraper []" 0 1 0 quiet_env] last_id_empty
  by (simp add: resume_id_def)

text \<open>
  With an empty store, start 0 and end 1, the first batch requests 9999.
\<close>

theorem batch_overshoots_end_id_counterexample:
  "9999 \<in> set (fetched (trace (final
      (scrape_range 1 quiet_env (FastCadastralScraper []) 0 1))))
   \<and> \<not> (9999 < (1::int))"
proof -
  have "(9999::int) \<in> set (map (\<lambda>i. 0 + int i) [0..<10000])"
    by (simp add: image_iff)
  with first_pass_quiet show ?thesis by auto
qed


theorem batch_fetches_full_range_witness:
  "(\<exists>s'. loop_body quiet_env 0 1 (start_run (FastCadastralScraper []) 0) = Inr s'
        \<and> fetched (trace s') = map (\<lambda>i. 0 + int i) [0..<10000])
   \<and> list_all (\<lambda>i. i < 10000) (fetched (trace (final
          (scrape_range 1 quiet_env (FastCadastralScraper []) 0 1))))"
proof -
  obtain s' where b: "loop_body quiet_env 0 1 (start_run (FastCadastralScraper []) 0) = Inr s'"
    using loop_body_empty_window[where s = "start_run (FastCadastralScraper []) 0"
        and ev = quiet_env and a = 0 and b = 1]
    by auto
  from batch_fetches_full_range[of quiet_env 0 1 "start_run (FastCadastralScraper []) 0" s'
      1 "FastCadastralScraper []"] b last_id_empty
  show ?thesis
    by (simp add: resume_id_def list_all_iff)
qed

section \<open>Properties of the store\<close>

lemma new_rowid_fresh: "new_rowid eng rows = Inr k \<Longrightarrow> k \<notin> set (keys rows)"
proof -
  assume a: "new_rowid eng rows = Inr k"
  show ?thesis
  proof (cases "rows = []")
    case True
    then show ?thesis by (simp add: keys_def)
  next
    case False
    let ?m = "Max (set (map col_parcel_id rows))"
    show ?thesis
    proof (cases "?m < 2 ^ 63 - 1")
      case True
      with a False have "k = ?m + 1" by (simp add: new_rowid_def Let_def)
      moreover have "\<forall>j\<in>set (map col_parcel_id rows). j \<le> ?m" by simp
      ultimately show ?thesis unfolding keys_def by fastforce
    next
      case F: False
      with a False show ?thesis
        by (auto simp: new_rowid_def Let_def keys_def split: option.splits if_splits)
    qed
  qed
qed

lemma insert_or_replace_Inr:
  assumes "insert_or_replace eng rows p = Inr rows'"
  shows "\<exists>k. rowid_of eng rows (bound (parcel_id p)) = Inr k
           \<and> (\<exists>x. bind_param (parcel_id p) = Inr x)
           \<and> rows' = filter (\<lambda>r. col_parcel_id r \<noteq> k) rows @ [stored_row eng k p]"
  using assms
  by (auto simp: insert_or_replace_def ebind_Inr_iff stored_row_def bound_def)


lemma rowid_explicit_or_fresh:
  assumes "rowid_of eng rows (bound v) = Inr k" and "bind_param v = Inr x"
  shows "explicit_key eng v = Some k \<or> (explicit_key eng v = None \<and> k \<notin> set (keys rows))"
  using assms
  by (cases x) (auto simp: bound_def explicit_key_def new_rowid_fresh split: if_splits option.splits)

lemma insert_or_replace_step:
  assumes "insert_or_replace eng rows p = Inr rows'"
  obtains k where
    "rows' = filter (\<lambda>r. col_parcel_id r \<noteq> k) rows @ [stored_row eng k p]"
    "explicit_key eng (parcel_id p) = Some k
       \<or> (explicit_key eng (parcel_id p) = None \<and> k \<notin> set (keys rows))"
proof -
  from insert_or_replace_Inr[OF assms] obtain k x where
    "rowid_of eng rows (bound (parcel_id p)) = Inr k" "bind_param (parcel_id p) = Inr x"
    "rows' = filter (\<lambda>r. col_parcel_id r \<noteq> k) rows @ [stored_row eng k p]"
    by blast
  with rowid_explicit_or_fresh[of eng rows "parcel_id p" k x] that show ?thesis by blast
qed

lemma keys_upsert:
  "keys (filter (\<lambda>r. col_parcel_id r \<noteq> k) rows @ [stored_row eng k p]) =
     filter (\<lambda>j. j \<noteq> k) (keys rows) @ [k]"
  by (simp add: keys_def stored_row_def filter_map comp_def)


lemma insert_or_replace_keys_grow:
  assumes "insert_or_replace eng rows p = Inr rows'"
  shows "set (keys rows) \<subseteq> set (keys rows')"
proof -
  from assms(1) obtain k where
    "rows' = filter (\<lambda>r. col_parcel_id r \<noteq> k) rows @ [stored_row eng k p]"
    by (rule insert_or_replace_step)
  then show ?thesis by (auto simp: keys_upsert)
qed


lemma executemany_ok_Cons:
  "executemany eng n rows (p # ps) = (rows', None) \<longleftrightarrow>
     io_fault eng \<noteq> Some n \<and>
     (\<exists>rows1. insert_or_replace eng rows p = Inr rows1
         \<and> executemany eng (Suc n) rows1 ps = (rows', None))"
  by (auto split: sum.splits)

lemma executemany_keys_grow:
  "executemany eng n rows recs = (rows', None) \<Longrightarrow> set (keys rows) \<subseteq> set (keys rows')"
proof (induction recs arbitrary: n rows)
  case Nil
  then show ?case by simp
next
  case (Cons p ps)
  from Cons.prems obtain rows1 where
    1: "insert_or_replace eng rows p = Inr rows1" and
    2: "executemany eng (Suc n) rows1 ps = (rows', None)"
    unfolding executemany_ok_Cons by blast
  from insert_or_replace_keys_grow[OF 1] Cons.IH[OF 2] show ?case by blast
qed



lemma executemany_append:
  "executemany eng n rows (xs @ ys) = (rows', None) \<longleftrightarrow>
     (\<exists>rows1. executemany eng n rows xs = (rows1, None)
        \<and> executemany eng (n + length xs) rows1 ys = (rows', None))"
proof (induction xs arbitrary: n rows)
  case Nil
  then show ?case by simp
next
  case (Cons x xs)
  show ?case
    unfolding append_Cons executemany_ok_Cons Cons.IH by auto
qed


lemma executemany_holds_keys:
  assumes "executemany eng n rows recs = (rows', None)"
    and "p \<in> set recs" and "explicit_key eng (parcel_id p) = Some k"
  shows "k \<in> set (keys rows')"
proof -
  from assms(2) obtain pre post where "recs = pre @ p # post"
    by (auto simp: in_set_conv_decomp)
  with assms(1) have "executemany eng n rows (pre @ p # post) = (rows', None)"
    by simp
  then obtain rows1 rows2 where
    1: "insert_or_replace eng rows1 p = Inr rows2" and
    2: "executemany eng (Suc (n + length pre)) rows2 post = (rows', None)"
    unfolding executemany_append executemany_ok_Cons by blast
  from 1 obtain j where
    r2: "rows2 = filter (\<lambda>r. col_parcel_id r \<noteq> j) rows1 @ [stored_row eng j p]" and
    j: "explicit_key eng (parcel_id p) = Some j
       \<or> (explicit_key eng (parcel_id p) = None \<and> j \<notin> set (keys rows1))"
    by (rule insert_or_replace_step)
  from j assms(3) have "j = k" by simp
  then have "k \<in> set (keys rows2)" by (simp add: r2 keys_upsert)
  with executemany_keys_grow[OF 2] show ?thesis by blast
qed

lemma insert_many_Some:
  "insert_many eng c recs = (c', Some e) \<longleftrightarrow>
     (\<exists>rows. executemany eng 0 (current c) recs = (rows, Some e))
     \<and> c' = \<lparr>durable = durable c, current = durable c\<rparr>"
  by (auto simp: insert_many_def commit_def rollback_def split: prod.splits option.splits)

lemma insert_many_None:
  "insert_many eng c recs = (c', None) \<longleftrightarrow>
     (\<exists>rows. executemany eng 0 (current c) recs = (rows, None)
        \<and> c' = \<lparr>durable = rows, current = rows\<rparr>)"
  by (auto simp: insert_many_def commit_def rollback_def split: prod.splits option.splits)




text \<open>
  C5. On a connection with no open transaction, a call of \<open>insert_many\<close> that raises,
  at whichever statement, leaves the store exactly as it was; a call that returns has
  run the statement for every record, committed the result, and the store holds the
  key of every record that names one.
\<close>

theorem insert_many_atomic:
  "current c = durable c \<longrightarrow>
     (case insert_many eng c recs of
        (c', Some e) \<Rightarrow> c' = c
      | (c', None) \<Rightarrow>
          current c' = durable c'
        \<and> executemany eng 0 (durable c) recs = (durable c', None)
        \<and> (\<forall>p\<in>set recs. \<forall>k. explicit_key eng (parcel_id p) = Some k \<longrightarrow>
              k \<in> set (keys (durable c'))))"
proof
  assume clean: "current c = durable c"
  obtain c' err where r: "insert_many eng c recs = (c', err)"
    by (cases "insert_many eng c recs")
  show "case insert_many eng c recs of
        (c', Some e) \<Rightarrow> c' = c
      | (c', None) \<Rightarrow>
          current c' = durable c'
        \<and> executemany eng 0 (durable c) recs = (durable c', None)
        \<and> (\<forall>p\<in>set recs. \<forall>k. explicit_key eng (parcel_id p) = Some k \<longrightarrow>
              k \<in> set (keys (durable c')))"
  proof (cases err)
    case None
    with r have "insert_many eng c recs = (c', None)" by simp
    then obtain rows where e: "executemany eng 0 (current c) recs = (rows, None)"
      and c': "c' = \<lparr>durable = rows, current = rows\<rparr>"
      unfolding insert_many_None by blast
    from executemany_holds_keys[OF e] e clean show ?thesis
      by (simp add: r None c')
  next
    case (Some e)
    with r have "insert_many eng c recs = (c', Some e)" by simp
    then have "c' = \<lparr>durable = durable c, current = durable c\<rparr>"
      unfolding insert_many_Some by blast
    with clean show ?thesis by (simp add: r Some)
  qed
qed


lemma quiet_sqlite_simps [simp]:
  "io_fault quiet_sqlite = None" "current_timestamp quiet_sqlite = 0"
  "text_rowid quiet_sqlite t = None" "random_rowid quiet_sqlite ks = None"
  by (simp_all add: quiet_sqlite_def)

lemma int64_small [simp]: "int64 1" "int64 2" "int64 7"
  by (simp_all add: int64_def)



lemma partial_batch:
  "executemany quiet_sqlite 0 [row5] [parcel_at 1 ''x'', unbindable] =
     ([row5, stored_row quiet_sqlite 1 (parcel_at 1 ''x'')], Some InterfaceError)"
  by (simp add: insert_or_replace_def parcel_at_def unbindable_def stored_row_def bound_def
      row5_def)

lemma whole_batch:
  "executemany quiet_sqlite 0 [row5] [parcel_at 1 ''x'', parcel_at 2 ''y''] =
     ([row5, stored_row quiet_sqlite 1 (parcel_at 1 ''x''),
       stored_row quiet_sqlite 2 (parcel_at 2 ''y'')], None)"
  by (simp add: insert_or_replace_def parcel_at_def stored_row_def bound_def row5_def)

theorem insert_many_atomic_witness:
  "current (connect [row5]) = durable (connect [row5])
   \<and> executemany quiet_sqlite 0 [row5] [parcel_at 1 ''x'', unbindable] =
       ([row5, stored_row quiet_sqlite 1 (parcel_at 1 ''x'')], Some InterfaceError)
   \<and> insert_many quiet_sqlite (connect [row5]) [parcel_at 1 ''x'', unbindable] =
       (connect [row5], Some InterfaceError)
   \<and> insert_many (quiet_sqlite\<lparr>io_fault := Some 1\<rparr>) (connect [row5])
         [parcel_at 1 ''x'', parcel_at 2 ''y''] = (connect [row5], Some OperationalError)
   \<and> snd (insert_many quiet_sqlite (connect [row5]) [parcel_at 1 ''x'', parcel_at 2 ''y'']) = None
   \<and> {1, 2} \<subseteq> set (keys (durable (fst
         (insert_many quiet_sqlite (connect [row5]) [parcel_at 1 ''x'', parcel_at 2 ''y'']))))"
proof -
  have clean: "current (connect [row5]) = durable (connect [row5])"
    by (simp add: connect_def)
  have bad: "snd (insert_many quiet_sqlite (connect [row5]) [parcel_at 1 ''x'', unbindable]) =
      Some InterfaceError"
    by (simp add: insert_many_def partial_batch connect_def del: executemany.simps)
  have ok: "snd (insert_many quiet_sqlite (connect [row5]) [parcel_at 1 ''x'', parcel_at 2 ''y''])
      = None"
    by (simp add: insert_many_def whole_batch connect_def del: executemany.simps)
  have k: "explicit_key quiet_sqlite (parcel_id (parcel_at 1 ''x'')) = Some 1"
    "explicit_key quiet_sqlite (parcel_id (parcel_at 2 ''y'')) = Some 2"
    by (simp_all add: explicit_key_def parcel_at_def)
  from insert_many_atomic[of "connect [row5]" quiet_sqlite "[parcel_at 1 ''x'', unbindable]"]
    clean bad
  have 1: "insert_many quiet_sqlite (connect [row5]) [parcel_at 1 ''x'', unbindable] =
       (connect [row5], Some InterfaceError)"
    by (cases "insert_many quiet_sqlite (connect [row5]) [parcel_at 1 ''x'', unbindable]") auto
  from insert_many_atomic[of "connect [row5]" quiet_sqlite
      "[parcel_at 1 ''x'', parcel_at 2 ''y'']"] clean ok k
  have 2: "{1, 2} \<subseteq> set (keys (durable (fst
         (insert_many quiet_sqlite (connect [row5]) [parcel_at 1 ''x'', parcel_at 2 ''y'']))))"
    by (cases "insert_many quiet_sqlite (connect [row5]) [parcel_at 1 ''x'', parcel_at 2 ''y'']")
      auto
  have "snd (insert_many (quiet_sqlite\<lparr>io_fault := Some 1\<rparr>) (connect [row5])
         [parcel_at 1 ''x'', parcel_at 2 ''y'']) = Some OperationalError"
    by (simp add: insert_many_def connect_def insert_or_replace_def parcel_at_def row5_def)
  with insert_many_atomic[of "connect [row5]" "quiet_sqlite\<lparr>io_fault := Some 1\<rparr>"
      "[parcel_at 1 ''x'', parcel_at 2 ''y'']"] clean
  have 3: "insert_many (quiet_sqlite\<lparr>io_fault := Some 1\<rparr>) (connect [row5])
         [parcel_at 1 ''x'', parcel_at 2 ''y''] = (connect [row5], Some OperationalError)"
    by (cases "insert_many (quiet_sqlite\<lparr>io_fault := Some 1\<rparr>) (connect [row5])
         [parcel_at 1 ''x'', parcel_at 2 ''y'']") auto
  from clean partial_batch 1 ok 2 3 show ?thesis by blast
qed

section \<open>Retry, advance and the end of the scan\<close>

lemma loop_body_trace:
  assumes "loop_body ev a b s = Inr s'"
  shows "trace s' = trace s @ progress_line ev b s @ map Fetch (batch_ids s)
            @ (if batch_error ev s = None then [] else [Sleep 60])"
    and "batch_durations s' =
           (if batch_error ev s = None
            then push_duration (batch_durations s) (pass_duration ev s)
            else batch_durations s)"
proof -
  from loop_body_Inr[OF assms] obtain x y where
    s': "s' = (case batch_error ev s of
             Some e \<Rightarrow>
               s\<lparr>attempt := attempt s + 1, successful_requests := x, failed_requests := y,
                 db := fst (batch_persist (sqlite_at ev (attempt s)) (session_get ev (attempt s)) s),
                 trace := trace s @ progress_line ev b s @ map Fetch (batch_ids s) @ [Sleep 60]\<rparr>
           | None \<Rightarrow>
               s\<lparr>attempt := attempt s + 1, successful_requests := x, failed_requests := y,
                 db := fst (batch_persist (sqlite_at ev (attempt s)) (session_get ev (attempt s)) s),
                 trace := trace s @ progress_line ev b s @ map Fetch (batch_ids s),
                 batch_durations :=
                   push_duration (batch_durations s) (pass_duration ev s),
                 current_id := current_id s + int (batch_size s)\<rparr>)"
    by blast
  show "trace s' = trace s @ progress_line ev b s @ map Fetch (batch_ids s)
            @ (if batch_error ev s = None then [] else [Sleep 60])"
    by (cases "batch_error ev s") (simp_all add: s')
  show "batch_durations s' =
           (if batch_error ev s = None
            then push_duration (batch_durations s) (pass_duration ev s)
            else batch_durations s)"
    by (cases "batch_error ev s") (simp_all add: s')
qed






lemma batch_records_none:
  assumes "\<forall>i. fetch_result session i = None"
  shows "batch_records session t = []"
  using assms by (simp add: batch_records_eq List.map_filter_def)


lemma batch_error_quiet: "batch_error quiet_env t = None"
proof -
  have "fetch_result (\<lambda>i. RequestRaises) i = None" for i
    by (simp add: fetch_result_def get_parcel_info_def)
  then have "batch_records (session_get quiet_env (attempt t)) t = []"
    by (intro batch_records_none) (simp add: quiet_env_def)
  then show ?thesis
    by (simp add: batch_error_def batch_persist_def)
qed

lemma fresh_run_simps [simp]:
  "current_id fresh_run = 0" "batch_size fresh_run = 10000" "batch_durations fresh_run = []"
  "trace fresh_run = []" "attempt fresh_run = 0"
  by (simp_all add: fresh_run_def resume_id_def last_id_empty)


lemma loop_body_fresh: "\<exists>s'. loop_body ev a b fresh_run = Inr s'"
  by (rule loop_body_empty_window) simp_all

text \<open>
  The first pass of a fresh scraper in the quiet world: the batch is empty and
  completes, the window holds its duration of one second.
\<close>

lemma quiet_first_pass:
  assumes "loop_body quiet_env a b fresh_run = Inr s1"
  shows "current_id s1 = 10000" and "batch_size s1 = 10000" and "batch_durations s1 = [1]"
    and "attempt s1 = 1" and "trace s1 = map Fetch (batch_ids fresh_run)"
proof -
  note st = loop_body_step[OF assms] loop_body_trace[OF assms]
  show "current_id s1 = 10000" using st(4) by (simp add: batch_error_quiet)
  show "batch_size s1 = 10000" using st(2) by simp
  show "attempt s1 = 1" using st(5) by simp
  have "pass_duration quiet_env fresh_run = 1"
    by (simp add: pass_duration_def quiet_env_def exact_arith_def)
  with st(7) show "batch_durations s1 = [1]"
    by (simp add: batch_error_quiet push_duration_def)
  show "trace s1 = map Fetch (batch_ids fresh_run)"
    using st(6) by (simp add: batch_error_quiet progress_line_def)
qed



section \<open>The window of batch durations and the ETA\<close>

lemma push_duration_most_recent:
  "push_duration (most_recent 50 h) d = most_recent 50 (h @ [d])"
proof (cases "length h < 50")
  case True
  then show ?thesis by (simp add: push_duration_def most_recent_def Let_def)
next
  case False
  then have "length (most_recent 50 h @ [d]) > 50"
    by (simp add: most_recent_def)
  then have "push_duration (most_recent 50 h) d = tl (most_recent 50 h @ [d])"
    by (simp add: push_duration_def Let_def)
  also have "\<dots> = tl (most_recent 50 h) @ [d]"
  proof -
    have "most_recent 50 h \<noteq> []" using False by (simp add: most_recent_def)
    then show ?thesis by simp
  qed
  also have "\<dots> = drop 1 (drop (length h - 50) h) @ [d]"
    by (simp add: most_recent_def drop_Suc tl_drop)
  also have "\<dots> = drop (length h - 49) h @ [d]"
  proof -
    have "1 + (length h - 50) = length h - 49" using False by simp
    then show ?thesis by (simp only: drop_drop)
  qed
  also have "\<dots> = most_recent 50 (h @ [d])"
    using False by (simp add: most_recent_def)
  finally show ?thesis .
qed

lemma scrape_loop_window:
  "batch_durations s = most_recent 50 h \<Longrightarrow>
     batch_durations (final (scrape_loop fuel ev a b s)) =
       most_recent 50 (h @ completed_durations fuel ev a b s)"
proof (induction fuel arbitrary: s h)
  case 0
  then show ?case by simp
next
  case (Suc fuel)
  show ?case
  proof (cases "current_id s < b")
    case False
    with Suc.prems show ?thesis by simp
  next
    case True
    show ?thesis
    proof (cases "loop_body ev a b s")
      case (Inl e)
      with True Suc.prems show ?thesis by simp
    next
      case (Inr s')
      let ?new = "if batch_error ev s = None then [pass_duration ev s] else []"
      have "batch_durations s' = most_recent 50 (h @ ?new)"
        using loop_body_trace(2)[OF Inr] Suc.prems
        by (simp add: push_duration_most_recent)
      from Suc.IH[OF this] True Inr show ?thesis by simp
    qed
  qed
qed


lemma etas_append [simp]: "etas (xs @ ys) = etas xs @ etas ys"
  by (simp add: etas_def List.map_filter_def)

lemma etas_Fetch [simp]: "etas (map Fetch ids) = []"
  by (induction ids) (simp_all add: etas_def map_filter_simps)

lemma etas_simps [simp]: "etas [] = []" "etas (Fetch i # es) = etas es"
  "etas (Sleep n # es) = etas es" "etas (Progress r # es) = r # etas es"
  by (simp_all add: etas_def map_filter_simps)

text \<open>
  C8 (as the code has it). A pass that starts with a non-empty window prints, before
  any request of its batch, an ETA computed in floats from the window as it is at the
  start of the pass: the product of the window's average and the quotient
  \<open>(end_id - current_id) / batch_size\<close>, which is a fraction and not the whole number of
  batches left. A pass that starts with an empty window prints none. The pass adds its
  own duration to the window only when its batch completes, after its requests. Adding
  to a window of fewer than 50 durations keeps them all; adding to one of 50 drops the
  oldest. After any run the window is the 50 most recent durations of the passes that
  completed.
\<close>

theorem eta_from_completed_window:
  "(loop_body ev start_id end_id s = Inr s' \<and> batch_durations s \<noteq> [] \<longrightarrow>
      trace s' = trace s
        @ Progress (float_mul (arith ev) (window_average (arith ev) (batch_durations s))
                      (remaining_fraction (arith ev) end_id s))
        # map Fetch (batch_ids s) @ (if batch_error ev s = None then [] else [Sleep 60]))
 \<and> (loop_body ev start_id end_id s = Inr s' \<and> batch_durations s = [] \<longrightarrow>
      trace s' = trace s
        @ map Fetch (batch_ids s) @ (if batch_error ev s = None then [] else [Sleep 60]))
 \<and> (loop_body ev start_id end_id s = Inr s' \<longrightarrow>
      batch_durations s' =
        (if batch_error ev s = None
         then push_duration (batch_durations s) (pass_duration ev s)
         else batch_durations s))
 \<and> (length w < 50 \<longrightarrow> push_duration w d = w @ [d])
 \<and> (length w = 50 \<longrightarrow> push_duration w d = tl w @ [d])
 \<and> batch_durations (final (scrape_range fuel ev sc start_id end_id)) =
       most_recent 50 (completed_durations fuel ev start_id end_id (start_run sc start_id))
 \<and> length (batch_durations (final (scrape_range fuel ev sc start_id end_id))) \<le> 50"
proof -
  have run: "batch_durations (final (scrape_range fuel ev sc start_id end_id)) =
       most_recent 50 (completed_durations fuel ev start_id end_id (start_run sc start_id))"
    using scrape_loop_window[of "start_run sc start_id" "[]" fuel ev start_id end_id]
    by (simp add: scrape_range_def most_recent_def)
  have len: "length (batch_durations (final (scrape_range fuel ev sc start_id end_id))) \<le> 50"
    unfolding run by (simp add: most_recent_def)
  have p1: "length w < 50 \<longrightarrow> push_duration w d = w @ [d]"
    by (simp add: push_duration_def Let_def)
  have p2: "length w = 50 \<longrightarrow> push_duration w d = tl w @ [d]"
    by (cases w) (simp_all add: push_duration_def Let_def)
  have t: "loop_body ev start_id end_id s = Inr s' \<longrightarrow>
      trace s' = trace s @ progress_line ev end_id s @ map Fetch (batch_ids s)
            @ (if batch_error ev s = None then [] else [Sleep 60])"
    using loop_body_trace(1)[of ev start_id end_id s s'] by blast
  have d: "loop_body ev start_id end_id s = Inr s' \<longrightarrow>
      batch_durations s' =
        (if batch_error ev s = None
         then push_duration (batch_durations s) (pass_duration ev s)
         else batch_durations s)"
    using loop_body_trace(2)[of ev start_id end_id s s'] by simp
  from t d p1 p2 run len show ?thesis
    by (simp add: progress_line_def eta_of_def)
qed

lemma warm_run_simps [simp]:
  "current_id warm_run = 0" "batch_size warm_run = 10000" "batch_durations warm_run = [2, 4]"
  "trace warm_run = []" "attempt warm_run = 0"
  by (simp_all add: warm_run_def)

theorem eta_from_completed_window_witness:
  "(\<exists>s'. loop_body quiet_env 0 20000 warm_run = Inr s'
       \<and> trace s' = Progress 6 # map Fetch (batch_ids warm_run)
       \<and> batch_durations s' = [2, 4, 1])
   \<and> (\<exists>s'. loop_body quiet_env 0 20000 fresh_run = Inr s'
       \<and> trace s' = map Fetch (batch_ids fresh_run) \<and> batch_durations s' = [1])
   \<and> push_duration (replicate 50 (1 :: rat)) 9 = replicate 49 1 @ [9]"
proof -
  have "report_progress quiet_env 0 20000 warm_run = Inr [Progress 6]"
    by (simp add: report_progress_def quiet_env_def exact_arith_def timedelta_def)
  then obtain s1 where 1: "loop_body quiet_env 0 20000 warm_run = Inr s1"
    using loop_body_Inl[of quiet_env 0 20000 warm_run]
    by (cases "loop_body quiet_env 0 20000 warm_run") auto
  obtain s2 where 2: "loop_body quiet_env 0 20000 fresh_run = Inr s2"
    using loop_body_fresh by blast
  have pd: "pass_duration quiet_env warm_run = 1" "pass_duration quiet_env fresh_run = 1"
    by (simp_all add: pass_duration_def quiet_env_def exact_arith_def)
  have eta: "float_mul (arith quiet_env) (window_average (arith quiet_env) [2, 4])
      (remaining_fraction (arith quiet_env) 20000 warm_run) = 6"
    by (simp add: window_average_def remaining_fraction_def quiet_env_def exact_arith_def)
  have a: "trace s1 = Progress 6 # map Fetch (batch_ids warm_run)
       \<and> batch_durations s1 = [2, 4, 1]"
    using eta_from_completed_window[of quiet_env 0 20000 warm_run s1 "[2, 4] :: rat list"
        "1 :: rat"] 1 batch_error_quiet pd eta
    by simp
  have b: "trace s2 = map Fetch (batch_ids fresh_run) \<and> batch_durations s2 = [1]"
    using eta_from_completed_window[of quiet_env 0 20000 fresh_run s2 "[] :: rat list"
        "1 :: rat"] 2 batch_error_quiet pd
    by simp
  have c: "push_duration (replicate 50 (1 :: rat)) 9 = replicate 49 1 @ [9]"
    using eta_from_completed_window[of quiet_env 0 0 fresh_run fresh_run
        "replicate 50 (1 :: rat)" 9 0 "FastCadastralScraper []"]
    by (simp add: numeral_eq_Suc)
  from 1 2 a b c show ?thesis by blast
qed

text \<open>
  A fresh scraper on an empty store, in the quiet world, scanning from 0 to 25000.
  After the first pass the window holds one duration of one second and \<open>current_id\<close> is
  10000: two batches are left, so the specification's ETA is 2. The second pass
  prints the only ETA of the run, \<open>1.0 * (15000 / 10000)\<close>, which is 3/2.
\<close>

theorem eta_fraction_counterexample:
  "etas (trace (final (scrape_range 2 quiet_env (FastCadastralScraper []) 0 25000))) = [3 / 2]
   \<and> average (batch_durations
        (final (scrape_range 1 quiet_env (FastCadastralScraper []) 0 25000)))
       * of_nat (remaining_batch_count 25000
          (final (scrape_range 1 quiet_env (FastCadastralScraper []) 0 25000))) = 2"
proof -
  obtain s1 where 1: "loop_body quiet_env 0 25000 fresh_run = Inr s1"
    using loop_body_fresh by blast
  note q = quiet_first_pass[OF 1]
  have r: "report_progress quiet_env 0 25000 s1 = Inr [Progress (3 / 2)]"
    by (simp add: report_progress_def q quiet_env_def exact_arith_def timedelta_def)
  then obtain s2 where 2: "loop_body quiet_env 0 25000 s1 = Inr s2"
    using loop_body_Inl[of quiet_env 0 25000 s1]
    by (cases "loop_body quiet_env 0 25000 s1") auto
  from report_progress_Inr(2)[OF r]
  have "progress_line quiet_env 25000 s1 = [Progress (3 / 2)]" by simp
  with loop_body_trace(1)[OF 2] q
  have e: "etas (trace s2) = [3 / 2]"
    by (simp add: batch_error_quiet)
  have fr: "start_run (FastCadastralScraper []) 0 = fresh_run"
    by (simp add: fresh_run_def)
  have one: "final (scrape_range 1 quiet_env (FastCadastralScraper []) 0 25000) = s1"
    using 1 by (simp add: scrape_range_def fr)
  have "scrape_range 2 quiet_env (FastCadastralScraper []) 0 25000 =
      scrape_loop (Suc (Suc 0)) quiet_env 0 25000 fresh_run"
    by (simp add: scrape_range_def fr numeral_2_eq_2)
  then have two: "final (scrape_range 2 quiet_env (FastCadastralScraper []) 0 25000) = s2"
    using 1 2 q by simp
  have "\<lceil>(3 :: rat) / 2\<rceil> = 2"
    by (rule ceiling_unique) simp_all
  then have "average (batch_durations s1) * of_nat (remaining_batch_count 25000 s1) = 2"
    by (simp add: q average_def remaining_batch_count_def)
  with e one two show ?thesis by simp
qed

section \<open>Where the stored key comes from\<close>

lemma loop_body_db:
  assumes "loop_body ev a b s = Inr s'"
  shows "db s' = fst (batch_persist (sqlite_at ev (attempt s)) (session_get ev (attempt s)) s)"
proof -
  from loop_body_Inr[OF assms] obtain x y where
    s': "s' = (case batch_error ev s of
             Some e \<Rightarrow>
               s\<lparr>attempt := attempt s + 1, successful_requests := x, failed_requests := y,
                 db := fst (batch_persist (sqlite_at ev (attempt s)) (session_get ev (attempt s)) s),
                 trace := trace s @ progress_line ev b s @ map Fetch (batch_ids s) @ [Sleep 60]\<rparr>
           | None \<Rightarrow>
               s\<lparr>attempt := attempt s + 1, successful_requests := x, failed_requests := y,
                 db := fst (batch_persist (sqlite_at ev (attempt s)) (session_get ev (attempt s)) s),
                 trace := trace s @ progress_line ev b s @ map Fetch (batch_ids s),
                 batch_durations :=
                   push_duration (batch_durations s) (pass_duration ev s),
                 current_id := current_id s + int (batch_size s)\<rparr>)"
    by blast
  show ?thesis by (cases "batch_error ev s") (simp_all add: s')
qed

lemma batch_records_one_hit:
  assumes "0 < batch_size s" and "fetch_result session (current_id s) = Some d"
    and "\<forall>i. i \<noteq> current_id s \<longrightarrow> fetch_result session i = None"
  shows "batch_records session s = [d]"
proof -
  have f: "(\<exists>y. fetch_result session i = Some y) = (i = current_id s)" for i
    using assms(2,3) by auto
  have "filter (\<lambda>k. current_id s + int k = current_id s) [0..<batch_size s] = [0]"
  proof -
    have "[0..<batch_size s] = 0 # [1..<batch_size s]"
      using assms(1) by (simp add: upt_rec)
    moreover have "filter (\<lambda>k. current_id s + int k = current_id s) [1..<batch_size s] = []"
      by (simp add: filter_empty_conv)
    ultimately show ?thesis by simp
  qed
  then have "filter (\<lambda>i. i = current_id s) (batch_ids s) = [current_id s]"
    by (simp add: batch_ids_def filter_map comp_def)
  moreover have "filter (\<lambda>r. r \<noteq> None) (map (fetch_result session) (batch_ids s)) =
      map (fetch_result session) (filter (\<lambda>i. i = current_id s) (batch_ids s))"
    by (simp add: filter_map comp_def f)
  ultimately show ?thesis
    using assms(2) unfolding batch_records_eq List.map_filter_def by simp
qed

lemma fetch_result_body7: "fetch_result (\<lambda>i. Response 200 (Some body7)) i = Some record7"
  by (simp add: fetch_result_def get_parcel_info_def no_requests_def body7_def
      three_sheets_def ana_def build_data_def record7_def)

lemma one_hit_stored:
  "map col_parcel_id (current (db (final
       (scrape_range 1 one_hit_env (FastCadastralScraper []) 100 10100)))) = [7]"
proof -
  let ?s = "start_run (FastCadastralScraper []) 100 :: rat run"
  let ?session = "\<lambda>i. if i = 100 then Response 200 (Some body7) else RequestRaises"
  have c: "current_id ?s = 100" by (simp add: resume_id_def last_id_empty)
  obtain s' where b: "loop_body one_hit_env 100 10100 ?s = Inr s'"
    using loop_body_empty_window[where s = ?s and ev = one_hit_env and a = 100 and b = 10100]
    by auto
  have h: "fetch_result ?session 100 = Some record7"
    using fetch_result_body7[of 100] by (simp add: fetch_result_def get_parcel_info_def)
  have m: "\<forall>i. i \<noteq> 100 \<longrightarrow> fetch_result ?session i = None"
    by (simp add: fetch_result_def get_parcel_info_def)
  have r: "batch_records ?session ?s = [record7]"
    using batch_records_one_hit[of ?s ?session record7] h m c by simp
  have "db s' = fst (insert_many quiet_sqlite (connect []) [record7])"
    using loop_body_db[OF b] r
    by (simp add: one_hit_env_def batch_persist_def FastCadastralScraper_def)
  also have "\<dots> = \<lparr>durable = [stored_row quiet_sqlite 7 record7],
                     current = [stored_row quiet_sqlite 7 record7]\<rparr>"
    by (simp add: insert_many_def insert_or_replace_def record7_def commit_def stored_row_def
        bound_def connect_def)
  finally have "map col_parcel_id (current (db s')) = [7]"
    by (simp add: stored_row_def)
  moreover have "final (scrape_range 1 one_hit_env (FastCadastralScraper []) 100 10100) = s'"
    using b c by (simp add: scrape_range_def)
  ultimately show ?thesis by simp
qed

text \<open>
  C10. The \<open>parcel_id\<close> of a returned record is the value under \<open>parcelId\<close> in the body of
  the response, whatever identifier was requested. It is \<open>None\<close> for a body without
  \<open>parcelId\<close>; it is 7 when 5 was requested and the body says 7; and a scan of
  100 to 10100 on an empty store, answered with \<open>parcelId\<close> 7, stores a row with key 7.
\<close>

theorem parcel_id_from_body:
  "(get_parcel_info c session i = (c', Some d) \<longrightarrow>
      (\<exists>content. session i = Response 200 (Some content)
          \<and> py_get content ''parcelId'' = Inr (parcel_id d)))
 \<and> map_option parcel_id (snd (get_parcel_info no_requests
        (\<lambda>i. Response 200 (Some (PDict [(''address'', PStr ''Ilica 1'')]))) 5)) = Some PNone
 \<and> map_option parcel_id (snd (get_parcel_info no_requests
        (\<lambda>i. Response 200 (Some body7)) 5)) = Some (PInt 7)
 \<and> map col_parcel_id (current (db (final
       (scrape_range 1 one_hit_env (FastCadastralScraper []) 100 10100)))) = [7]"
proof (intro conjI impI)
  assume "get_parcel_info c session i = (c', Some d)"
  then obtain content where s: "session i = Response 200 (Some content)"
    and b: "build_data content = Inr d"
    unfolding get_parcel_info_Some by blast
  from b obtain kvs where k: "content = PDict kvs"
    using build_data_Inr_dict by blast
  have "parcel_id d = dict_get kvs ''parcelId''"
  proof (cases "py_truthy (dict_get kvs ''possessionSheets'')")
    case False
    with b k show ?thesis by (auto simp: build_data_dict)
  next
    case True
    with b k obtain ss data where "scan_sheets ss data = Inr d"
      "parcel_id data = dict_get kvs ''parcelId''"
      by (auto simp: build_data_dict ebind_Inr_iff)
    moreover have "scan_sheets ss data = Inr d \<Longrightarrow> parcel_id d = parcel_id data" for ss data
      by (induction ss) (auto simp: ebind_Inr_iff split: if_splits)
    ultimately show ?thesis by simp
  qed
  with s k show "\<exists>content. session i = Response 200 (Some content)
          \<and> py_get content ''parcelId'' = Inr (parcel_id d)"
    by (simp add: py_get_dict del: py_get.simps)
next
  show "map_option parcel_id (snd (get_parcel_info no_requests
        (\<lambda>i. Response 200 (Some (PDict [(''address'', PStr ''Ilica 1'')]))) 5)) = Some PNone"
    by (simp add: get_parcel_info_def no_requests_def build_data_def)
next
  show "map_option parcel_id (snd (get_parcel_info no_requests
        (\<lambda>i. Response 200 (Some body7)) 5)) = Some (PInt 7)"
    using fetch_result_body7[of 5] by (simp add: fetch_result_def record7_def)
next
  show "map col_parcel_id (current (db (final
       (scrape_range 1 one_hit_env (FastCadastralScraper []) 100 10100)))) = [7]"
    by (rule one_hit_stored)
qed

theorem parcel_id_from_body_witness:
  "get_parcel_info no_requests (\<lambda>i. Response 200 (Some body7)) 7 =
     (\<lparr>successful_requests = 1, failed_requests = 0\<rparr>, Some record7)
   \<and> py_get body7 ''parcelId'' = Inr (parcel_id record7)
   \<and> parcel_id record7 = PInt 7"
proof -
  have g: "get_parcel_info no_requests (\<lambda>i. Response 200 (Some body7)) 7 =
     (\<lparr>successful_requests = 1, failed_requests = 0\<rparr>, Some record7)"
    using body7_record by (simp add: record7_def)
  from parcel_id_from_body[of no_requests "\<lambda>i. Response 200 (Some body7)" 7
      "\<lparr>successful_requests = 1, failed_requests = 0\<rparr>" record7] g
  show ?thesis by (simp add: record7_def)
qed

section \<open>The concurrency ceiling\<close>










end
